theory Spec2Isabelle
  imports Complex_Main "HOL-Library.Sublist"
begin

section \<open>JavaScript values\<close>

text \<open>
  A JavaScript number is NaN, a finite number or an infinity. The finite numbers are
  modelled over a carrier: \<open>real\<close> for the result of \<open>parseFloat\<close> and for JSON
  numbers (every double is a real; the code below only compares numbers and takes their
  minimum and maximum, which is exact on doubles), \<open>int\<close> for the result of
  \<open>parseInt\<close>, which is NaN or integer-valued. The negative zero is identified with
  zero: both are falsy and compare alike.
\<close>

datatype 'a jsnum = NaN | Fin 'a | PosInf | NegInf

text \<open>The comparison \<open>a <= b\<close> of two numbers; false as soon as one is NaN.\<close>

fun num_le :: "'a::linorder jsnum \<Rightarrow> 'a jsnum \<Rightarrow> bool" where
  "num_le NaN _ = False"
| "num_le _ NaN = False"
| "num_le NegInf _ = True"
| "num_le _ PosInf = True"
| "num_le (Fin a) (Fin b) = (a \<le> b)"
| "num_le (Fin a) NegInf = False"
| "num_le PosInf (Fin b) = False"
| "num_le PosInf NegInf = False"

text \<open>\<open>a >= b\<close> and \<open>a > b\<close> as the priority scorer writes them.\<close>

definition num_ge :: "'a::linorder jsnum \<Rightarrow> 'a jsnum \<Rightarrow> bool" where
  "num_ge a b = num_le b a"

definition num_gt :: "'a::linorder jsnum \<Rightarrow> 'a jsnum \<Rightarrow> bool" where
  "num_gt a b = (num_le b a \<and> a \<noteq> b)"

text \<open>\<open>Math.max\<close> and \<open>Math.min\<close> of two arguments: NaN as soon as one is NaN.\<close>

definition Math_max :: "'a::linorder jsnum \<Rightarrow> 'a jsnum \<Rightarrow> 'a jsnum" where
  "Math_max a b = (if a = NaN \<or> b = NaN then NaN else if num_le a b then b else a)"

definition Math_min :: "'a::linorder jsnum \<Rightarrow> 'a jsnum \<Rightarrow> 'a jsnum" where
  "Math_min a b = (if a = NaN \<or> b = NaN then NaN else if num_le a b then a else b)"

text \<open>Truthiness of a number: zero and NaN are falsy.\<close>

fun truthy_num :: "'a::zero jsnum \<Rightarrow> bool" where
  "truthy_num NaN = False"
| "truthy_num (Fin v) = (v \<noteq> 0)"
| "truthy_num PosInf = True"
| "truthy_num NegInf = True"

text \<open>\<open>a || d\<close> on numbers.\<close>

definition or_num :: "'a::zero jsnum \<Rightarrow> 'a jsnum \<Rightarrow> 'a jsnum" where
  "or_num a d = (if truthy_num a then a else d)"

text \<open>
  The values a request body or a parsed classifier reply can hold: the JSON values and
  \<open>undefined\<close> (a missing property, a missing body). An object is the list of its own
  properties, in insertion order, with distinct keys.
\<close>

datatype jsval =
    JUndefined
  | JNull
  | JBool bool
  | JNum "real jsnum"
  | JStr string
  | JArr "jsval list"
  | JObj "(string \<times> jsval) list"

datatype js_error =
    TypeError
  | SyntaxError
  | ApiError string
  | DbError string
  | HandlerError string

fun truthy :: "jsval \<Rightarrow> bool" where
  "truthy JUndefined = False"
| "truthy JNull = False"
| "truthy (JBool b) = b"
| "truthy (JNum n) = truthy_num n"
| "truthy (JStr s) = (s \<noteq> [])"
| "truthy (JArr _) = True"
| "truthy (JObj _) = True"

text \<open>\<open>a || b\<close> and \<open>a || b || ... || null\<close> on values.\<close>

definition or_val :: "jsval \<Rightarrow> jsval \<Rightarrow> jsval" where
  "or_val a b = (if truthy a then a else b)"

fun or_chain :: "jsval list \<Rightarrow> jsval \<Rightarrow> jsval" where
  "or_chain [] d = d"
| "or_chain (v # vs) d = (if truthy v then v else or_chain vs d)"

text \<open>
  Property access \<open>v.k\<close>, for the property names the code reads (none of them is a
  property of a built-in prototype): a TypeError on \<open>null\<close> and \<open>undefined\<close>, the own
  property of an object, \<open>undefined\<close> otherwise.
\<close>

fun get_prop :: "jsval \<Rightarrow> string \<Rightarrow> js_error + jsval" where
  "get_prop JUndefined k = Inl TypeError"
| "get_prop JNull k = Inl TypeError"
| "get_prop (JObj kvs) k = Inr (case map_of kvs k of None \<Rightarrow> JUndefined | Some v \<Rightarrow> v)"
| "get_prop _ k = Inr JUndefined"

text \<open>Optional chaining \<open>v?.k\<close>: \<open>undefined\<close> on \<open>null\<close> and \<open>undefined\<close>.\<close>

definition get_prop_opt :: "jsval \<Rightarrow> string \<Rightarrow> jsval" where
  "get_prop_opt v k = (case get_prop v k of Inl _ \<Rightarrow> JUndefined | Inr x \<Rightarrow> x)"

text \<open>
  Element access \<open>v[i]\<close> with a number index: the element of an array, the property of
  an object whose key is the index written in decimal, the character of a string.
\<close>

fun digit_string :: "nat \<Rightarrow> string" where
  "digit_string n =
     (if n < 10 then [''0123456789'' ! n]
      else digit_string (n div 10) @ [''0123456789'' ! (n mod 10)])"

fun get_index :: "jsval \<Rightarrow> nat \<Rightarrow> js_error + jsval" where
  "get_index JUndefined i = Inl TypeError"
| "get_index JNull i = Inl TypeError"
| "get_index (JArr xs) i = Inr (if i < length xs then xs ! i else JUndefined)"
| "get_index (JObj kvs) i =
     Inr (case map_of kvs (digit_string i) of None \<Rightarrow> JUndefined | Some v \<Rightarrow> v)"
| "get_index (JStr s) i = Inr (if i < length s then JStr [s ! i] else JUndefined)"
| "get_index _ i = Inr JUndefined"

text \<open>\<open>Object.keys(v).length\<close>: a TypeError on \<open>null\<close> and \<open>undefined\<close>.\<close>

fun Object_keys_length :: "jsval \<Rightarrow> js_error + nat" where
  "Object_keys_length JUndefined = Inl TypeError"
| "Object_keys_length JNull = Inl TypeError"
| "Object_keys_length (JObj kvs) = Inr (length kvs)"
| "Object_keys_length (JArr xs) = Inr (length xs)"
| "Object_keys_length (JStr s) = Inr (length s)"
| "Object_keys_length _ = Inr 0"

text \<open>Sequencing of two steps the first of which may throw.\<close>

fun try_bind :: "js_error + 'a \<Rightarrow> ('a \<Rightarrow> js_error + 'b) \<Rightarrow> js_error + 'b" where
  "try_bind (Inl e) f = Inl e"
| "try_bind (Inr x) f = f x"

text \<open>
  The parts of the runtime the repository calls and does not define: the parsers of
  strings, the string conversion of arrays and objects (which can throw), and
  \<open>JSON.parse\<close>. They are parameters of the model.
\<close>

record js_builtins =
  parseInt_string :: "string \<Rightarrow> int jsnum"
  parseFloat_string :: "string \<Rightarrow> real jsnum"
  ToString_object :: "jsval \<Rightarrow> js_error + string"
  JSON_parse :: "jsval \<Rightarrow> js_error + jsval"

text \<open>
  \<open>parseInt(v)\<close> converts its argument to a string and reads an integer prefix. A finite
  number prints in decimal notation when it is zero or its magnitude lies in
  \<open>[1e-6, 1e21)\<close>, and the prefix read is then the number truncated towards zero; a
  number in exponent notation goes through the string parser. \<open>undefined\<close>, \<open>null\<close>,
  booleans, NaN and the infinities print as words and give NaN.
\<close>

definition js_trunc :: "real \<Rightarrow> int" where
  "js_trunc r = (if 0 \<le> r then \<lfloor>r\<rfloor> else \<lceil>r\<rceil>)"

fun parseInt :: "js_builtins \<Rightarrow> jsval \<Rightarrow> js_error + int jsnum" where
  "parseInt bi (JNum (Fin r)) =
     (if r = 0 \<or> (1 / 10 ^ 6 \<le> \<bar>r\<bar> \<and> \<bar>r\<bar> < 10 ^ 21) then Inr (Fin (js_trunc r))
      else try_bind (ToString_object bi (JNum (Fin r))) (\<lambda>s. Inr (parseInt_string bi s)))"
| "parseInt bi (JNum _) = Inr NaN"
| "parseInt bi (JStr s) = Inr (parseInt_string bi s)"
| "parseInt bi (JArr xs) =
     try_bind (ToString_object bi (JArr xs)) (\<lambda>s. Inr (parseInt_string bi s))"
| "parseInt bi (JObj kvs) =
     try_bind (ToString_object bi (JObj kvs)) (\<lambda>s. Inr (parseInt_string bi s))"
| "parseInt bi _ = Inr NaN"

text \<open>
  \<open>parseFloat(v)\<close>: a number prints and parses back to itself; \<open>undefined\<close>, \<open>null\<close> and
  booleans give NaN.
\<close>

fun parseFloat :: "js_builtins \<Rightarrow> jsval \<Rightarrow> js_error + real jsnum" where
  "parseFloat bi (JNum n) = Inr n"
| "parseFloat bi (JStr s) = Inr (parseFloat_string bi s)"
| "parseFloat bi (JArr xs) =
     try_bind (ToString_object bi (JArr xs)) (\<lambda>s. Inr (parseFloat_string bi s))"
| "parseFloat bi (JObj kvs) =
     try_bind (ToString_object bi (JObj kvs)) (\<lambda>s. Inr (parseFloat_string bi s))"
| "parseFloat bi _ = Inr NaN"

section \<open>The NLP classifier\<close>

text \<open>
  The result of \<open>classifyLead\<close>. The three validated enumerations are strings; the
  language, the summary and the key phrases are whatever truthy value the classifier sent.
\<close>

record classification =
  intent :: string
  urgency :: "int jsnum"
  estimatedValue :: "real jsnum"
  persona :: string
  vertical :: string
  language :: jsval
  score :: "int jsnum"
  conversionProbability :: "real jsnum"
  summary :: jsval
  keyPhrases :: jsval
  embeddings :: jsval

record classify_options =
  preferredLanguage :: "string option"
  detectLanguage :: "bool option"

definition validIntents :: "string list" where
  "validIntents = [''buying'', ''selling'', ''suing'', ''asking'', ''complaining'',
     ''scheduling'', ''other'']"

definition validPersonas :: "string list" where
  "validPersonas = [''shark'', ''empath'', ''concierge'', ''professional'', ''closer'']"

definition validVerticals :: "string list" where
  "validVerticals = [''law'', ''real_estate'', ''ecommerce'', ''consulting'', ''services'',
     ''other'']"

text \<open>
  The array method \<open>xs.includes(v)\<close> for a list of strings: only a string equal to an
  element is found.
\<close>

fun arr_includes :: "string list \<Rightarrow> jsval \<Rightarrow> bool" where
  "arr_includes xs (JStr s) = (s \<in> set xs)"
| "arr_includes xs _ = False"

fun the_string :: "jsval \<Rightarrow> string" where
  "the_string (JStr s) = s"
| "the_string _ = []"

definition validateIntent :: "jsval \<Rightarrow> string" where
  "validateIntent v = (if arr_includes validIntents v then the_string v else ''other'')"

definition validatePersona :: "jsval \<Rightarrow> string" where
  "validatePersona v = (if arr_includes validPersonas v then the_string v else ''professional'')"

definition validateVertical :: "jsval \<Rightarrow> string" where
  "validateVertical v = (if arr_includes validVerticals v then the_string v else ''other'')"

text \<open>
  What the call of the external classifier does: it throws (a network error, a time-out
  raised by the client, a missing key), or it returns a response object.
\<close>

datatype api_outcome = ApiThrows js_error | ApiResponse jsval

text \<open>
  The \<open>try\<close> block of \<open>classifyLead\<close>, from the outcome of the call on: the content
  of the first choice is parsed, and every field is validated and normalised. Each
  property access and each parser call can throw.
\<close>

definition classifyLead_try ::
  "js_builtins \<Rightarrow> api_outcome \<Rightarrow> string \<Rightarrow> js_error + classification" where
  "classifyLead_try bi outcome preferred =
     (case outcome of
        ApiThrows e \<Rightarrow> Inl e
      | ApiResponse response \<Rightarrow>
          try_bind (get_prop response ''choices'') (\<lambda>choices.
          try_bind (get_index choices 0) (\<lambda>choice.
          try_bind (get_prop choice ''message'') (\<lambda>message.
          try_bind (get_prop message ''content'') (\<lambda>content.
          try_bind (JSON_parse bi content) (\<lambda>result.
          try_bind (get_prop result ''intent'') (\<lambda>r_intent.
          try_bind (get_prop result ''urgency'') (\<lambda>r_urgency.
          try_bind (parseInt bi r_urgency) (\<lambda>p_urgency.
          try_bind (get_prop result ''estimatedValue'') (\<lambda>r_value.
          try_bind (parseFloat bi r_value) (\<lambda>p_value.
          try_bind (get_prop result ''persona'') (\<lambda>r_persona.
          try_bind (get_prop result ''vertical'') (\<lambda>r_vertical.
          try_bind (get_prop result ''language'') (\<lambda>r_language.
          try_bind (get_prop result ''score'') (\<lambda>r_score.
          try_bind (parseInt bi r_score) (\<lambda>p_score.
          try_bind (get_prop result ''conversionProbability'') (\<lambda>r_prob.
          try_bind (parseFloat bi r_prob) (\<lambda>p_prob.
          try_bind (get_prop result ''summary'') (\<lambda>r_summary.
          try_bind (get_prop result ''keyPhrases'') (\<lambda>r_phrases.
          Inr \<lparr> intent = validateIntent r_intent,
                urgency = Math_min (Fin 10) (Math_max (Fin 1) (or_num p_urgency (Fin 5))),
                estimatedValue = or_num p_value (Fin 0),
                persona = validatePersona r_persona,
                vertical = validateVertical r_vertical,
                language = or_val r_language (JStr preferred),
                score = Math_min (Fin 100) (Math_max (Fin 1) (or_num p_score (Fin 50))),
                conversionProbability =
                  Math_min (Fin 1) (Math_max (Fin 0) (or_num p_prob (Fin (1 / 2)))),
                summary = or_val r_summary (JStr []),
                keyPhrases = or_val r_phrases (JArr []),
                embeddings = JNull \<rparr>))))))))))))))))))))"

text \<open>The defaults returned by the \<open>catch\<close> block.\<close>

definition classification_defaults :: "string \<Rightarrow> classification" where
  "classification_defaults preferred =
     \<lparr> intent = ''other'',
       urgency = Fin 5,
       estimatedValue = Fin 0,
       persona = ''professional'',
       vertical = ''other'',
       language = JStr preferred,
       score = Fin 30,
       conversionProbability = Fin (3 / 10),
       summary = JStr ''Classification failed - manual review needed'',
       keyPhrases = JArr [],
       embeddings = JNull \<rparr>"

text \<open>
  \<open>classifyLead\<close>: the options are destructured with the default language \<open>en\<close>, the
  \<open>try\<close> block runs, and any exception is caught and replaced by the defaults.
\<close>

definition classifyLead :: "js_builtins \<Rightarrow> api_outcome \<Rightarrow> classify_options \<Rightarrow> classification" where
  "classifyLead bi outcome options =
     (let preferred = (case preferredLanguage options of None \<Rightarrow> ''en'' | Some l \<Rightarrow> l)
      in case classifyLead_try bi outcome preferred of
           Inl e \<Rightarrow> classification_defaults preferred
         | Inr c \<Rightarrow> c)"

section \<open>The priority scorer\<close>

text \<open>
  \<open>calculatePriority\<close>: the running priority is a small integer; the three steps of the
  source are kept in their order.
\<close>

definition calculatePriority :: "classification \<Rightarrow> int" where
  "calculatePriority c =
     (let priority = 5;
          priority = (if num_ge (urgency c) (Fin 8) then priority + 3
                      else if num_ge (urgency c) (Fin 5) then priority + 1 else priority);
          priority = (if num_gt (estimatedValue c) (Fin 50000) then priority + 2
                      else if num_gt (estimatedValue c) (Fin 10000) then priority + 1
                      else priority);
          priority = (if intent c = ''buying'' then priority + 1 else priority);
          priority = (if intent c = ''suing'' then priority + 2 else priority)
      in min priority 10)"

section \<open>The event bus\<close>

text \<open>
  A listener of the underlying emitter: the event it listens to, whether it was registered
  by \<open>subscribe\<close> (wrapped in the catching function) or by the inherited \<open>on\<close>, and what
  its handler does on a payload: it completes (\<open>None\<close>), or it throws or returns a
  rejected promise (\<open>Some e\<close>). The identifier tells listeners apart in the record of
  deliveries.
\<close>

record 'd listener =
  lid :: nat
  levent :: string
  wrapped :: bool
  handler :: "'d \<Rightarrow> js_error option"

text \<open>
  The bus: its listeners in registration order and its history (event and data; the
  timestamp is left out), and two records of what happened: the handler calls made, in
  order, and the errors logged by the wrappers.
\<close>

record 'd event_bus =
  listeners :: "'d listener list"
  history :: "(string \<times> 'd) list"
  delivered :: "(nat \<times> 'd) list"
  handler_errors :: "(string \<times> js_error) list"

definition historyLimit :: nat where
  "historyLimit = 1000"

definition new_bus :: "'d event_bus" where
  "new_bus = \<lparr> listeners = [], history = [], delivered = [], handler_errors = [] \<rparr>"

text \<open>\<open>subscribe(event, handler)\<close> and the inherited \<open>on(event, handler)\<close>.\<close>

definition subscribe :: "nat \<Rightarrow> string \<Rightarrow> ('d \<Rightarrow> js_error option) \<Rightarrow> 'd event_bus \<Rightarrow> 'd event_bus" where
  "subscribe i ev h b =
     b\<lparr> listeners := listeners b @ [\<lparr> lid = i, levent = ev, wrapped = True, handler = h \<rparr>] \<rparr>"

definition on_raw :: "nat \<Rightarrow> string \<Rightarrow> ('d \<Rightarrow> js_error option) \<Rightarrow> 'd event_bus \<Rightarrow> 'd event_bus" where
  "on_raw i ev h b =
     b\<lparr> listeners := listeners b @ [\<lparr> lid = i, levent = ev, wrapped = False, handler = h \<rparr>] \<rparr>"

text \<open>
  The emitter calls the listeners of the event one after the other. A wrapped handler
  that fails is logged and the loop goes on; an exception of a handler registered
  without the wrapper leaves the loop and reaches the caller of \<open>emit\<close>.
\<close>

fun call_listeners :: "'d listener list \<Rightarrow> 'd \<Rightarrow> 'd event_bus \<Rightarrow> js_error option \<times> 'd event_bus" where
  "call_listeners [] d b = (None, b)"
| "call_listeners (l # ls) d b =
     (let b1 = b\<lparr> delivered := delivered b @ [(lid l, d)] \<rparr>
      in case handler l d of
           None \<Rightarrow> call_listeners ls d b1
         | Some e \<Rightarrow>
             if wrapped l
             then call_listeners ls d (b1\<lparr> handler_errors := handler_errors b1 @ [(levent l, e)] \<rparr>)
             else (Some e, b1))"

text \<open>
  \<open>emit(event, data)\<close>: the entry is pushed on the history, the history is cut to its
  last \<open>historyLimit\<close> entries, and the emitter's own \<open>emit\<close> runs: it throws on an
  \<open>error\<close> event nobody listens to, and returns whether the event had listeners.
\<close>

definition emit :: "string \<Rightarrow> 'd \<Rightarrow> 'd event_bus \<Rightarrow> (js_error + bool) \<times> 'd event_bus" where
  "emit ev d b =
     (let h = history b @ [(ev, d)];
          h = (if length h > historyLimit then drop (length h - historyLimit) h else h);
          b1 = b\<lparr> history := h \<rparr>;
          ls = filter (\<lambda>l. levent l = ev) (listeners b1)
      in if ls = [] \<and> ev = ''error'' then (Inl (HandlerError ''Unhandled error''), b1)
         else case call_listeners ls d b1 of
                (None, b2) \<Rightarrow> (Inr (ls \<noteq> []), b2)
              | (Some e, b2) \<Rightarrow> (Inl e, b2))"

text \<open>Emitting a list of payloads of one event, one call after the other.\<close>

fun emit_all :: "string \<Rightarrow> 'd list \<Rightarrow> 'd event_bus \<Rightarrow> (js_error + bool) list \<times> 'd event_bus" where
  "emit_all ev [] b = ([], b)"
| "emit_all ev (d # ds) b =
     (case emit ev d b of (r, b1) \<Rightarrow>
        (case emit_all ev ds b1 of (rs, b2) \<Rightarrow> (r # rs, b2)))"

text \<open>The payloads handed to the listener \<open>i\<close>, in the order of the calls.\<close>

definition deliveries_to :: "nat \<Rightarrow> 'd event_bus \<Rightarrow> 'd list" where
  "deliveries_to i b = map snd (filter (\<lambda>p. fst p = i) (delivered b))"

section \<open>The ingestion endpoint\<close>

text \<open>
  A request: its parsed body, its headers (a header that is absent is \<open>None\<close>) and the
  address of the sender.
\<close>

record request =
  body :: jsval
  headers :: "string \<Rightarrow> string option"
  ip :: string

text \<open>\<open>req.headers[k]\<close> read as a condition, and \<open>req.headers[k] || d\<close>.\<close>

definition header_set :: "request \<Rightarrow> string \<Rightarrow> bool" where
  "header_set req k = (case headers req k of None \<Rightarrow> False | Some v \<Rightarrow> v \<noteq> [])"

definition header_or :: "request \<Rightarrow> string \<Rightarrow> string \<Rightarrow> string" where
  "header_or req k d = (case headers req k of None \<Rightarrow> d | Some v \<Rightarrow> if v \<noteq> [] then v else d)"

text \<open>\<open>toLowerCase\<close> on the ASCII letters, and \<open>s.includes(p)\<close> on strings.\<close>

definition lower_char :: "char \<Rightarrow> char" where
  "lower_char c =
     (if (65::nat) \<le> of_char c \<and> of_char c \<le> (90::nat) then char_of (of_char c + (32::nat)) else c)"

definition toLowerCase :: "string \<Rightarrow> string" where
  "toLowerCase s = map lower_char s"

fun str_includes :: "string \<Rightarrow> string \<Rightarrow> bool" where
  "str_includes [] p = (p = [])"
| "str_includes (c # cs) p = (prefix p (c # cs) \<or> str_includes cs p)"

definition detectChannel :: "request \<Rightarrow> string" where
  "detectChannel req =
     (let userAgent = (case headers req ''user-agent'' of None \<Rightarrow> [] | Some v \<Rightarrow> toLowerCase v)
      in if str_includes userAgent ''whatsapp'' then ''whatsapp''
         else if str_includes userAgent ''twilio'' then ''sms''
         else if header_set req ''x-fb-signature'' then ''facebook''
         else if header_set req ''x-telegram-bot-api-secret-token'' then ''telegram''
         else ''web'')"

text \<open>
  \<open>extractIdentifier\<close> and \<open>extractContactInfo\<close> read properties of the raw data, which
  throws when the raw data is \<open>null\<close> or \<open>undefined\<close>; the nested \<open>contact\<close> is read
  with optional chaining.
\<close>

definition nullish :: "jsval \<Rightarrow> bool" where
  "nullish v = (v = JUndefined \<or> v = JNull)"

definition extractIdentifier :: "jsval \<Rightarrow> js_error + jsval" where
  "extractIdentifier rawData =
     (if nullish rawData then Inl TypeError
      else Inr (or_chain
        [get_prop_opt rawData ''phone'',
         get_prop_opt rawData ''from'',
         get_prop_opt rawData ''email'',
         get_prop_opt rawData ''sender'',
         get_prop_opt rawData ''customer_phone'',
         get_prop_opt (get_prop_opt rawData ''contact'') ''phone''] JNull))"

record contact_info =
  ci_name :: jsval
  ci_phone :: jsval
  ci_email :: jsval

definition extractContactInfo :: "jsval \<Rightarrow> js_error + contact_info" where
  "extractContactInfo rawData =
     (if nullish rawData then Inl TypeError
      else Inr \<lparr>
        ci_name = or_chain
          [get_prop_opt rawData ''name'',
           get_prop_opt rawData ''contact_name'',
           get_prop_opt rawData ''customer_name'',
           get_prop_opt (get_prop_opt rawData ''contact'') ''name'',
           get_prop_opt rawData ''sender_name''] JNull,
        ci_phone = or_chain
          [get_prop_opt rawData ''phone'',
           get_prop_opt rawData ''from'',
           get_prop_opt rawData ''customer_phone'',
           get_prop_opt (get_prop_opt rawData ''contact'') ''phone'',
           get_prop_opt rawData ''mobile''] JNull,
        ci_email = or_chain
          [get_prop_opt rawData ''email'',
           get_prop_opt rawData ''customer_email'',
           get_prop_opt (get_prop_opt rawData ''contact'') ''email''] JNull \<rparr>)"

text \<open>The sixteen parameters of the insert into the leads ledger.\<close>

record lead_params =
  source_channel :: string
  source_identifier :: jsval
  source_provider :: string
  raw_data :: jsval
  context_vectors :: jsval
  contact_name :: jsval
  contact_phone :: jsval
  contact_email :: jsval
  detected_intent :: string
  detected_urgency :: "int jsnum"
  estimated_value :: "real jsnum"
  required_persona :: string
  business_vertical :: string
  primary_language :: jsval
  lead_score :: "int jsnum"
  conversion_probability :: "real jsnum"

text \<open>The payload of the \<open>lead:new\<close> event.\<close>

record lead_new =
  ev_leadId :: string
  ev_classification :: classification
  ev_sourceChannel :: string
  ev_priority :: int

text \<open>
  The response: the status and the fields of the JSON body the three replies use. The
  processing time of the accepted reply and the message the failure reply carries in
  development mode are left out.
\<close>

record class_summary =
  sum_intent :: string
  sum_urgency :: "int jsnum"
  sum_persona :: string
  sum_language :: jsval

record response =
  res_status :: nat
  res_success :: bool
  res_error :: "string option"
  res_requestId :: string
  res_leadId :: "string option"
  res_classification :: "class_summary option"

text \<open>
  What the handler does not decide: the request identifier drawn, the runtime, the
  outcome of the classifier call on the raw data, and the outcome of the two inserts
  (the insert of the lead returns the identifier of the new row).
\<close>

record env =
  uuid :: string
  builtins :: js_builtins
  api_call :: "jsval \<Rightarrow> api_outcome"
  insert_lead :: "lead_params \<Rightarrow> js_error + string"
  insert_audit :: "string \<Rightarrow> classification \<Rightarrow> js_error option"

text \<open>
  What the handler changes: the bus, the rows of the ledger and of the audit log, and
  the calls made to the classifier.
\<close>

record sys =
  bus :: "lead_new event_bus"
  ledger :: "(string \<times> lead_params) list"
  audit_log :: "(string \<times> classification) list"
  classifier_calls :: "jsval list"

definition empty_payload_response :: "string \<Rightarrow> response" where
  "empty_payload_response requestId =
     \<lparr> res_status = 400, res_success = False, res_error = Some ''Empty payload'',
       res_requestId = requestId, res_leadId = None, res_classification = None \<rparr>"

definition ingestion_failed_response :: "string \<Rightarrow> response" where
  "ingestion_failed_response requestId =
     \<lparr> res_status = 500, res_success = False, res_error = Some ''Ingestion failed'',
       res_requestId = requestId, res_leadId = None, res_classification = None \<rparr>"

definition accepted_response :: "string \<Rightarrow> string \<Rightarrow> classification \<Rightarrow> response" where
  "accepted_response requestId leadId c =
     \<lparr> res_status = 202, res_success = True, res_error = None,
       res_requestId = requestId, res_leadId = Some leadId,
       res_classification = Some \<lparr> sum_intent = intent c, sum_urgency = urgency c,
         sum_persona = persona c, sum_language = language c \<rparr> \<rparr>"

text \<open>
  The handler of \<open>POST /ingest\<close> is modelled in three parts, in the order of its steps.
  The first is the list of the parameters of the insert (step 5).
\<close>

definition lead_row ::
  "string \<Rightarrow> jsval \<Rightarrow> string \<Rightarrow> jsval \<Rightarrow> contact_info \<Rightarrow> classification \<Rightarrow> lead_params" where
  "lead_row sourceChannel sourceIdentifier sourceProvider rawData contactInfo c =
     \<lparr> source_channel = sourceChannel,
       source_identifier = sourceIdentifier,
       source_provider = sourceProvider,
       raw_data = rawData,
       context_vectors = or_val (embeddings c) (JObj []),
       contact_name = ci_name contactInfo,
       contact_phone = ci_phone contactInfo,
       contact_email = ci_email contactInfo,
       detected_intent = intent c,
       detected_urgency = urgency c,
       estimated_value = estimatedValue c,
       required_persona = persona c,
       business_vertical = vertical c,
       primary_language = or_val (language c) (JStr ''en''),
       lead_score = or_num (score c) (Fin 50),
       conversion_probability = or_num (conversionProbability c) (Fin (1 / 2)) \<rparr>"

text \<open>
  The second part is the steps 5 to 7: the insert of the lead, the insert into the audit
  log and the emission of \<open>lead:new\<close>. It returns the identifier of the lead, or the
  exception thrown, together with the state reached: what was written before an
  exception stays written.
\<close>

definition store_and_publish ::
  "env \<Rightarrow> string \<Rightarrow> classification \<Rightarrow> lead_params \<Rightarrow> sys \<Rightarrow> (js_error + string) \<times> sys" where
  "store_and_publish env sourceChannel c params s1 =
     (case insert_lead env params of
        Inl e \<Rightarrow> (Inl e, s1)
      | Inr leadId \<Rightarrow>
          (let s2 = s1\<lparr> ledger := ledger s1 @ [(leadId, params)] \<rparr>
           in (case insert_audit env leadId c of
                 Some e \<Rightarrow> (Inl e, s2)
               | None \<Rightarrow>
                   (let s3 = s2\<lparr> audit_log := audit_log s2 @ [(leadId, c)] \<rparr>
                    in (case emit ''lead:new''
                              \<lparr> ev_leadId = leadId, ev_classification = c,
                                ev_sourceChannel = sourceChannel,
                                ev_priority = calculatePriority c \<rparr>
                              (bus s3) of
                          (Inl e, b) \<Rightarrow> (Inl e, s3\<lparr> bus := b \<rparr>)
                        | (Inr _, b) \<Rightarrow> (Inr leadId, s3\<lparr> bus := b \<rparr>))))))"

text \<open>
  The third part is the \<open>try\<close> block as a whole: the steps 1 to 4, the second part, and
  the reply of step 8.
\<close>

definition ingest_try :: "env \<Rightarrow> request \<Rightarrow> sys \<Rightarrow> (js_error + response) \<times> sys" where
  "ingest_try env req s =
     (let requestId = uuid env;
          rawData = body req;
          sourceChannel = (if header_set req ''x-source-channel''
                           then header_or req ''x-source-channel'' [] else detectChannel req)
      in (case (if header_set req ''x-source-id''
                then Inr (JStr (header_or req ''x-source-id'' []))
                else extractIdentifier rawData) of
            Inl e \<Rightarrow> (Inl e, s)
          | Inr sourceIdentifier \<Rightarrow>
              (let sourceProvider = header_or req ''x-source-provider'' ''unknown''
               in if \<not> truthy rawData then (Inr (empty_payload_response requestId), s)
                  else (case Object_keys_length rawData of
                          Inl e \<Rightarrow> (Inl e, s)
                        | Inr n \<Rightarrow>
                            (if n = 0 then (Inr (empty_payload_response requestId), s)
                             else
                               (let c = classifyLead (builtins env) (api_call env rawData)
                                          \<lparr> preferredLanguage = Some ''en'',
                                            detectLanguage = Some True \<rparr>;
                                    s1 = s\<lparr> classifier_calls := classifier_calls s @ [rawData] \<rparr>
                                in (case extractContactInfo rawData of
                                      Inl e \<Rightarrow> (Inl e, s1)
                                    | Inr contactInfo \<Rightarrow>
                                        (case store_and_publish env sourceChannel c
                                                (lead_row sourceChannel sourceIdentifier
                                                   sourceProvider rawData contactInfo c) s1 of
                                           (Inl e, s4) \<Rightarrow> (Inl e, s4)
                                         | (Inr leadId, s4) \<Rightarrow>
                                             (Inr (accepted_response requestId leadId c), s4)))))))))"

text \<open>The handler: an exception of the block is answered by the status 500.\<close>

definition ingest :: "env \<Rightarrow> request \<Rightarrow> sys \<Rightarrow> response \<times> sys" where
  "ingest env req s =
     (case ingest_try env req s of
        (Inl e, s') \<Rightarrow> (ingestion_failed_response (uuid env), s')
      | (Inr res, s') \<Rightarrow> (res, s'))"

section \<open>The provider manager\<close>

text \<open>
  A row of \<open>provider_configurations\<close>, with the columns the manager reads, and a
  provider instance: an object of the class the registry holds for its type and name,
  made from that row.
\<close>

record provider_config =
  config_id :: string
  provider_type :: string
  provider_name :: string
  is_default :: bool

record provider_instance =
  inst_type :: string
  inst_name :: string
  inst_config :: provider_config

text \<open>The entry the manager keeps for a provider; the time of the last check is \<open>null\<close> at first.\<close>

record provider_data =
  pinstance :: provider_instance
  config :: provider_config
  isDefault :: bool
  lastHealthCheck :: "nat option"
  isHealthy :: bool

text \<open>
  The \<open>Map\<close> of the manager: the entries in insertion order, under distinct keys.
  \<open>map_set\<close> is \<open>Map.prototype.set\<close>: a key that is present keeps its place.
\<close>

type_synonym providers = "(string \<times> provider_data) list"

fun map_set :: "string \<Rightarrow> provider_data \<Rightarrow> providers \<Rightarrow> providers" where
  "map_set k v [] = [(k, v)]"
| "map_set k v ((k', v') # ps) = (if k = k' then (k, v) # ps else (k', v') # map_set k v ps)"

definition provider_key :: "string \<Rightarrow> string \<Rightarrow> string" where
  "provider_key type name = type @ '':'' @ name"

text \<open>\<open>key.startsWith(p)\<close>.\<close>

definition startsWith :: "string \<Rightarrow> string \<Rightarrow> bool" where
  "startsWith key p = prefix p key"

text \<open>
  The registry of provider classes: the names known for each type. A type or a name
  that is a property every object inherits (\<open>constructor\<close>) is not in the table; for it
  the source builds an object that is no provider, the call of its \<open>initialize\<close> throws,
  and \<open>initializeProvider\<close> ends with an exception as it does here.
\<close>

definition ProviderRegistry :: "(string \<times> string list) list" where
  "ProviderRegistry =
     [(''voice'', [''vapi'', ''twilio'']),
      (''messaging'', [''whatsapp_business'', ''twilio_sms'']),
      (''email'', [''sendgrid'', ''resend'']),
      (''esignature'', [''docusign'', ''pandadoc'']),
      (''payment'', [''stripe'', ''paypal''])]"

definition getProvider :: "string \<Rightarrow> string \<Rightarrow> provider_config \<Rightarrow> js_error + provider_instance" where
  "getProvider type name cfg =
     (case map_of ProviderRegistry type of
        None \<Rightarrow> Inl (HandlerError ''Unknown provider type'')
      | Some names \<Rightarrow>
          if name \<in> set names
          then Inr \<lparr> inst_type = type, inst_name = name, inst_config = cfg \<rparr>
          else Inl (HandlerError ''Unknown provider''))"

text \<open>
  \<open>initializeProvider\<close>: the instance is made, its own \<open>initialize\<close> runs (it may throw:
  the first argument tells), and the entry is set.
\<close>

definition initializeProvider ::
  "(provider_instance \<Rightarrow> js_error option) \<Rightarrow> provider_config \<Rightarrow> providers \<Rightarrow> js_error + providers" where
  "initializeProvider init_outcome cfg ps =
     (let key = provider_key (provider_type cfg) (provider_name cfg)
      in case getProvider (provider_type cfg) (provider_name cfg) cfg of
           Inl e \<Rightarrow> Inl e
         | Inr provider \<Rightarrow>
             (case init_outcome provider of
                Some e \<Rightarrow> Inl e
              | None \<Rightarrow>
                  Inr (map_set key
                    \<lparr> pinstance = provider, config = cfg, isDefault = is_default cfg,
                      lastHealthCheck = None, isHealthy = True \<rparr> ps)))"

text \<open>
  The loop of \<open>initialize\<close> over the active rows: a provider that fails to initialise is
  logged and skipped.
\<close>

fun initialize_rows ::
  "(provider_instance \<Rightarrow> js_error option) \<Rightarrow> provider_config list \<Rightarrow> providers \<Rightarrow> providers" where
  "initialize_rows init_outcome [] ps = ps"
| "initialize_rows init_outcome (cfg # rows) ps =
     (case initializeProvider init_outcome cfg ps of
        Inl e \<Rightarrow> initialize_rows init_outcome rows ps
      | Inr ps' \<Rightarrow> initialize_rows init_outcome rows ps')"

text \<open>
  What \<open>get\<close> returns: an instance, \<open>undefined\<close> (a name that is not registered) or
  \<open>null\<close> (no provider of the type).
\<close>

datatype lookup = Found provider_instance | Undefined | Null

text \<open>
  \<open>get(type, name = null)\<close>. The name is \<open>None\<close> when the argument is left out or
  \<open>null\<close>; the test \<open>if (name)\<close> takes a non-empty string only.
\<close>

definition get :: "string \<Rightarrow> string option \<Rightarrow> providers \<Rightarrow> lookup" where
  "get type name ps =
     (if name \<noteq> None \<and> name \<noteq> Some []
      then (case map_of ps (provider_key type (the name)) of
              None \<Rightarrow> Undefined
            | Some d \<Rightarrow> Found (pinstance d))
      else (case find (\<lambda>(key, d). startsWith key (type @ '':'') \<and> isDefault d) ps of
              Some (key, d) \<Rightarrow> Found (pinstance d)
            | None \<Rightarrow>
                (case find (\<lambda>(key, d). startsWith key (type @ '':'')) ps of
                   Some (key, d) \<Rightarrow> Found (pinstance d)
                 | None \<Rightarrow> Null)))"

definition getAllOfType :: "string \<Rightarrow> providers \<Rightarrow> provider_data list" where
  "getAllOfType type ps = map snd (filter (\<lambda>(key, d). startsWith key (type @ '':'')) ps)"

text \<open>
  \<open>setDefault(type, name)\<close>: two updates of the database, each of which may throw (the
  first two arguments tell), then the loop over the entries of the type.
\<close>

definition setDefault ::
  "js_error option \<Rightarrow> js_error option \<Rightarrow> string \<Rightarrow> string \<Rightarrow> providers \<Rightarrow> js_error + providers" where
  "setDefault clear_outcome mark_outcome type name ps =
     (case clear_outcome of
        Some e \<Rightarrow> Inl e
      | None \<Rightarrow>
          (case mark_outcome of
             Some e \<Rightarrow> Inl e
           | None \<Rightarrow>
               Inr (map (\<lambda>(key, d).
                     if startsWith key (type @ '':'')
                     then (key, d\<lparr> isDefault := (key = provider_key type name) \<rparr>)
                     else (key, d)) ps)))"

text \<open>
  A call of \<open>setDefault\<close> with the outcomes of its two updates, and a sequence of calls:
  a call that throws leaves the entries as they were.
\<close>

record set_default_call =
  call_clear :: "js_error option"
  call_mark :: "js_error option"
  call_type :: string
  call_name :: string

definition run_call :: "set_default_call \<Rightarrow> providers \<Rightarrow> providers" where
  "run_call c ps =
     (case setDefault (call_clear c) (call_mark c) (call_type c) (call_name c) ps of
        Inl e \<Rightarrow> ps
      | Inr ps' \<Rightarrow> ps')"


section \<open>The health monitor\<close>

text \<open>
  What a round of health checks meets, for the provider under each key: the outcome of
  its probe, the outcome of the update of its row, and the clock read in the \<open>try\<close>
  block and in the \<open>catch\<close> block.
\<close>

datatype probe_outcome = ProbeReturns bool | ProbeThrows js_error

record health_world =
  probe :: "string \<Rightarrow> probe_outcome"
  updateHealth :: "string \<Rightarrow> string \<Rightarrow> js_error option"
  clock_try :: "string \<Rightarrow> nat"
  clock_catch :: "string \<Rightarrow> nat"

text \<open>
  The \<open>try\<close> block of one provider: the entry as it stands when the block ends, and the
  exception that ended it, if any.
\<close>

definition check_try :: "health_world \<Rightarrow> string \<Rightarrow> provider_data \<Rightarrow> js_error option \<times> provider_data" where
  "check_try w key d =
     (case probe w key of
        ProbeThrows e \<Rightarrow> (Some e, d)
      | ProbeReturns h \<Rightarrow>
          (let d1 = d\<lparr> isHealthy := h, lastHealthCheck := Some (clock_try w key) \<rparr>
           in (updateHealth w (config_id (config d)) (if h then ''healthy'' else ''unhealthy''), d1)))"

definition check_provider :: "health_world \<Rightarrow> string \<Rightarrow> provider_data \<Rightarrow> provider_data" where
  "check_provider w key d =
     (case check_try w key d of
        (None, d1) \<Rightarrow> d1
      | (Some e, d1) \<Rightarrow> d1\<lparr> isHealthy := False, lastHealthCheck := Some (clock_catch w key) \<rparr>)"

text \<open>\<open>runHealthChecks\<close>: the loop over the entries, in order.\<close>

fun runHealthChecks :: "health_world \<Rightarrow> providers \<Rightarrow> providers" where
  "runHealthChecks w [] = []"
| "runHealthChecks w ((key, d) # ps) = (key, check_provider w key d) # runHealthChecks w ps"

section \<open>Documented domains and the scoring table\<close>

text \<open>
  The domains of the classification fields. \<open>documented_domain\<close> follows the data
  model word for word, the estimated value being a non-negative number;
  \<open>enforced_domain\<close> asks of the estimated value only that it is a number.
  The same two predicates are stated for a stored row.
\<close>

fun fin_between :: "'a::linorder \<Rightarrow> 'a \<Rightarrow> 'a jsnum \<Rightarrow> bool" where
  "fin_between lo hi (Fin v) = (lo \<le> v \<and> v \<le> hi)"
| "fin_between lo hi _ = False"

fun non_negative :: "real jsnum \<Rightarrow> bool" where
  "non_negative (Fin v) = (0 \<le> v)"
| "non_negative PosInf = True"
| "non_negative _ = False"

definition documented_domain :: "classification \<Rightarrow> bool" where
  "documented_domain c =
     (fin_between 1 10 (urgency c) \<and> fin_between 1 100 (score c)
      \<and> fin_between 0 1 (conversionProbability c)
      \<and> intent c \<in> set validIntents \<and> persona c \<in> set validPersonas
      \<and> vertical c \<in> set validVerticals \<and> non_negative (estimatedValue c))"

definition enforced_domain :: "classification \<Rightarrow> bool" where
  "enforced_domain c =
     (fin_between 1 10 (urgency c) \<and> fin_between 1 100 (score c)
      \<and> fin_between 0 1 (conversionProbability c)
      \<and> intent c \<in> set validIntents \<and> persona c \<in> set validPersonas
      \<and> vertical c \<in> set validVerticals \<and> estimatedValue c \<noteq> NaN)"

definition documented_stored_domain :: "lead_params \<Rightarrow> bool" where
  "documented_stored_domain r =
     (fin_between 1 10 (detected_urgency r) \<and> fin_between 1 100 (lead_score r)
      \<and> fin_between 0 1 (conversion_probability r)
      \<and> detected_intent r \<in> set validIntents \<and> required_persona r \<in> set validPersonas
      \<and> business_vertical r \<in> set validVerticals \<and> non_negative (estimated_value r))"

definition stored_domain :: "lead_params \<Rightarrow> bool" where
  "stored_domain r =
     (fin_between 1 10 (detected_urgency r) \<and> fin_between 1 100 (lead_score r)
      \<and> fin_between 0 1 (conversion_probability r)
      \<and> detected_intent r \<in> set validIntents \<and> required_persona r \<in> set validPersonas
      \<and> business_vertical r \<in> set validVerticals \<and> estimated_value r \<noteq> NaN)"

text \<open>The bonus table of the priority scorer, as the design states it.\<close>

definition urgencyBonus :: "int jsnum \<Rightarrow> int" where
  "urgencyBonus u = (if num_ge u (Fin 8) then 3 else if num_ge u (Fin 5) then 1 else 0)"

definition valueBonus :: "real jsnum \<Rightarrow> int" where
  "valueBonus v = (if num_gt v (Fin 50000) then 2 else if num_gt v (Fin 10000) then 1 else 0)"

definition intentBonus :: "string \<Rightarrow> int" where
  "intentBonus i = (if i = ''suing'' then 2 else if i = ''buying'' then 1 else 0)"

definition spec_priority :: "int jsnum \<Rightarrow> real jsnum \<Rightarrow> string \<Rightarrow> int" where
  "spec_priority u v i = min 10 (5 + urgencyBonus u + valueBonus v + intentBonus i)"

section \<open>Concrete inputs\<close>

text \<open>
  A response of the classifier in the shape the client returns, a runtime whose
  \<open>JSON.parse\<close> yields a given value, an environment in which both inserts succeed, a
  request without headers, and the state before the first request.
\<close>

definition chat_response :: "jsval \<Rightarrow> jsval" where
  "chat_response content =
     JObj [(''choices'', JArr [JObj [(''message'', JObj [(''content'', content)])]])]"

definition demo_builtins :: "jsval \<Rightarrow> js_builtins" where
  "demo_builtins parsed =
     \<lparr> parseInt_string = (\<lambda>s. NaN), parseFloat_string = (\<lambda>s. NaN),
       ToString_object = (\<lambda>v. Inr []), JSON_parse = (\<lambda>v. Inr parsed) \<rparr>"

definition demo_env :: "jsval \<Rightarrow> env" where
  "demo_env parsed =
     \<lparr> uuid = ''req-1'', builtins = demo_builtins parsed,
       api_call = (\<lambda>raw. ApiResponse (chat_response (JStr ''reply''))),
       insert_lead = (\<lambda>p. Inr ''lead-1''),
       insert_audit = (\<lambda>i c. None) \<rparr>"

definition demo_request :: "jsval \<Rightarrow> request" where
  "demo_request b = \<lparr> body = b, headers = (\<lambda>k. None), ip = ''127.0.0.1'' \<rparr>"

definition empty_sys :: sys where
  "empty_sys = \<lparr> bus = new_bus, ledger = [], audit_log = [], classifier_calls = [] \<rparr>"

definition demo_options :: classify_options where
  "demo_options = \<lparr> preferredLanguage = Some ''en'', detectLanguage = Some True \<rparr>"

text \<open>The payload of the event emitted for a lead.\<close>

definition published :: "string \<Rightarrow> classification \<Rightarrow> string \<Rightarrow> lead_new" where
  "published leadId c ch =
     \<lparr> ev_leadId = leadId, ev_classification = c, ev_sourceChannel = ch,
       ev_priority = calculatePriority c \<rparr>"

text \<open>The language \<open>classifyLead\<close> takes from its options: \<open>en\<close> unless one is given.\<close>

definition preferred_of :: "classify_options \<Rightarrow> string" where
  "preferred_of opts = (case preferredLanguage opts of None \<Rightarrow> ''en'' | Some l \<Rightarrow> l)"

text \<open>
  A \<open>JSON.parse\<close> that knows two texts and throws on every other, an environment whose
  ledger insert fails, and a request with a telephone number.
\<close>

definition sample_parse :: "jsval \<Rightarrow> js_error + jsval" where
  "sample_parse v = (if v = JStr ''null'' then Inr JNull
                     else if v = JStr ''{}'' then Inr (JObj []) else Inl SyntaxError)"

definition sample_builtins :: js_builtins where
  "sample_builtins = (demo_builtins JNull)\<lparr> JSON_parse := sample_parse \<rparr>"

definition failing_env :: env where
  "failing_env = (demo_env (JObj []))\<lparr> insert_lead := (\<lambda>p. Inl (DbError ''connection lost'')) \<rparr>"

definition phone_request :: request where
  "phone_request = demo_request (JObj [(''phone'', JStr ''+1234567890'')])"

section \<open>The documented replacements\<close>

text \<open>
  The replacements the classification adapter documents, written from the design: a
  value outside an enumeration gives the default of the enumeration; a number that is
  missing, zero or not a number gives the default of the field, and any other number is
  cut to the range; the estimated value has the default 0 and no range. The result of
  the adapter on a parsed reply is stated with them.
\<close>

definition enum_or_default :: "string list \<Rightarrow> string \<Rightarrow> jsval \<Rightarrow> string" where
  "enum_or_default valid d v = (case v of JStr s \<Rightarrow> if s \<in> set valid then s else d | _ \<Rightarrow> d)"

fun clamp_or_default :: "'a::{linorder,zero} \<Rightarrow> 'a \<Rightarrow> 'a \<Rightarrow> 'a jsnum \<Rightarrow> 'a jsnum" where
  "clamp_or_default lo hi d NaN = Fin d"
| "clamp_or_default lo hi d (Fin v) =
     (if v = 0 then Fin d else if v < lo then Fin lo else if hi < v then Fin hi else Fin v)"
| "clamp_or_default lo hi d PosInf = Fin hi"
| "clamp_or_default lo hi d NegInf = Fin lo"

fun number_or_default :: "real \<Rightarrow> real jsnum \<Rightarrow> real jsnum" where
  "number_or_default d NaN = Fin d"
| "number_or_default d (Fin v) = (if v = 0 then Fin d else Fin v)"
| "number_or_default d PosInf = PosInf"
| "number_or_default d NegInf = NegInf"

definition documented_result ::
  "string \<Rightarrow> jsval \<Rightarrow> int jsnum \<Rightarrow> real jsnum \<Rightarrow> int jsnum \<Rightarrow> real jsnum \<Rightarrow> classification" where
  "documented_result preferred result pu pv ps pp =
     \<lparr> intent = enum_or_default validIntents ''other'' (get_prop_opt result ''intent''),
       urgency = clamp_or_default 1 10 5 pu,
       estimatedValue = number_or_default 0 pv,
       persona = enum_or_default validPersonas ''professional'' (get_prop_opt result ''persona''),
       vertical = enum_or_default validVerticals ''other'' (get_prop_opt result ''vertical''),
       language = or_val (get_prop_opt result ''language'') (JStr preferred),
       score = clamp_or_default 1 100 50 ps,
       conversionProbability = clamp_or_default 0 1 (1 / 2) pp,
       summary = or_val (get_prop_opt result ''summary'') (JStr []),
       keyPhrases = or_val (get_prop_opt result ''keyPhrases'') (JArr []),
       embeddings = JNull \<rparr>"

text \<open>The content of the first choice of a response, \<open>response.choices[0].message.content\<close>.\<close>

definition reply_content :: "jsval \<Rightarrow> js_error + jsval" where
  "reply_content response =
     try_bind (get_prop response ''choices'') (\<lambda>choices.
     try_bind (get_index choices 0) (\<lambda>choice.
     try_bind (get_prop choice ''message'') (\<lambda>message.
     get_prop message ''content'')))"

text \<open>
  The options the handler passes, and what a row holds of a classification: its fields,
  the conversion probability 0 being stored as 0.5.
\<close>

definition ingest_options :: classify_options where
  "ingest_options = \<lparr> preferredLanguage = Some ''en'', detectLanguage = Some True \<rparr>"

definition stored_probability :: "real jsnum \<Rightarrow> real jsnum" where
  "stored_probability p = (if p = Fin 0 then Fin (1 / 2) else p)"

definition stored_from :: "classification \<Rightarrow> lead_params \<Rightarrow> bool" where
  "stored_from c row =
     (detected_intent row = intent c \<and> detected_urgency row = urgency c
      \<and> estimated_value row = estimatedValue c \<and> required_persona row = persona c
      \<and> business_vertical row = vertical c \<and> lead_score row = score c
      \<and> conversion_probability row = stored_probability (conversionProbability c))"

text \<open>
  A reply with an unknown intent, an urgency above the range, an estimated value that is
  no number, the score 0 and a negative conversion probability.
\<close>

definition odd_reply :: jsval where
  "odd_reply = JObj [(''intent'', JStr ''flying''), (''urgency'', JNum (Fin 15)),
                     (''estimatedValue'', JStr ''n/a''), (''score'', JNum (Fin 0)),
                     (''conversionProbability'', JNum (Fin (- 3)))]"

section \<open>Notions used for the bus, the health monitor and the registry\<close>

text \<open>
  The listeners of an event, and the errors the wrappers of a list of listeners log for
  a payload.
\<close>

definition listeners_of :: "string \<Rightarrow> 'd event_bus \<Rightarrow> 'd listener list" where
  "listeners_of ev b = filter (\<lambda>l. levent l = ev) (listeners b)"

definition logged_errors :: "'d listener list \<Rightarrow> 'd \<Rightarrow> (string \<times> js_error) list" where
  "logged_errors ls d =
     concat (map (\<lambda>l. case handler l d of None \<Rightarrow> [] | Some e \<Rightarrow> [(levent l, e)]) ls)"

text \<open>A bus with two subscribers of \<open>lead:new\<close>, the first of which always throws.\<close>

definition two_subscribers :: "nat event_bus" where
  "two_subscribers =
     subscribe 2 ''lead:new'' (\<lambda>d. None)
       (subscribe 1 ''lead:new'' (\<lambda>d. Some (HandlerError ''boom'')) new_bus)"

text \<open>A probe fails when it throws or returns \<open>false\<close>.\<close>

definition probe_failed :: "probe_outcome \<Rightarrow> bool" where
  "probe_failed p = (case p of ProbeReturns h \<Rightarrow> \<not> h | ProbeThrows e \<Rightarrow> True)"

text \<open>
  The entry \<open>initializeProvider\<close> makes for a row, a registry of two providers, a round
  in which the probe of the voice provider throws, and the same round with a database
  that refuses the updates.
\<close>

definition provider_entry :: "string \<Rightarrow> string \<Rightarrow> string \<Rightarrow> bool \<Rightarrow> string \<times> provider_data" where
  "provider_entry i type name dflt =
     (let cfg = \<lparr> config_id = i, provider_type = type, provider_name = name, is_default = dflt \<rparr>
      in (provider_key type name,
          \<lparr> pinstance = \<lparr> inst_type = type, inst_name = name, inst_config = cfg \<rparr>,
            config = cfg, isDefault = dflt, lastHealthCheck = None, isHealthy = True \<rparr>))"

definition two_providers :: providers where
  "two_providers = [provider_entry ''id-1'' ''voice'' ''vapi'' True,
                    provider_entry ''id-2'' ''email'' ''sendgrid'' True]"

definition vapi_down :: health_world where
  "vapi_down =
     \<lparr> probe = (\<lambda>k. if k = ''voice:vapi'' then ProbeThrows (HandlerError ''unreachable'')
                     else ProbeReturns True),
       updateHealth = (\<lambda>i st. None),
       clock_try = (\<lambda>k. 100), clock_catch = (\<lambda>k. 101) \<rparr>"

definition vapi_down_db_down :: health_world where
  "vapi_down_db_down = vapi_down\<lparr> updateHealth := (\<lambda>i st. Some (DbError ''connection lost'')) \<rparr>"

text \<open>
  A registry is well formed when its keys are distinct and every entry sits under the key
  of the type and the name of its row, neither of which holds a colon, and holds an
  instance of that type and name. \<open>initializeProvider\<close> makes such entries only.
\<close>

definition colon_free :: "string \<Rightarrow> bool" where
  "colon_free s = (CHR '':'' \<notin> set s)"

definition wf_entry :: "string \<times> provider_data \<Rightarrow> bool" where
  "wf_entry p =
     (fst p = provider_key (provider_type (config (snd p))) (provider_name (config (snd p)))
      \<and> colon_free (provider_type (config (snd p)))
      \<and> colon_free (provider_name (config (snd p)))
      \<and> inst_type (pinstance (snd p)) = provider_type (config (snd p))
      \<and> inst_name (pinstance (snd p)) = provider_name (config (snd p)))"

definition wf_providers :: "providers \<Rightarrow> bool" where
  "wf_providers ps = (distinct (map fst ps) \<and> list_all wf_entry ps)"

text \<open>
  The loop of \<open>setDefault\<close> on its own, a call both updates of which succeed, the
  number of providers of a type that are marked as the default, and the entry registered
  for a type and a name.
\<close>

definition set_flags :: "string \<Rightarrow> string \<Rightarrow> providers \<Rightarrow> providers" where
  "set_flags type name ps =
     map (\<lambda>(key, d).
           if startsWith key (type @ '':'')
           then (key, d\<lparr> isDefault := (key = provider_key type name) \<rparr>)
           else (key, d)) ps"

definition succeeded :: "set_default_call \<Rightarrow> bool" where
  "succeeded c = (call_clear c = None \<and> call_mark c = None)"

definition ok_call :: "string \<Rightarrow> string \<Rightarrow> set_default_call" where
  "ok_call t n = \<lparr> call_clear = None, call_mark = None, call_type = t, call_name = n \<rparr>"

definition default_count :: "string \<Rightarrow> providers \<Rightarrow> nat" where
  "default_count t ps =
     length (filter (\<lambda>p. provider_type (config (snd p)) = t \<and> isDefault (snd p)) ps)"

definition registered :: "string \<Rightarrow> string \<Rightarrow> providers \<Rightarrow> bool" where
  "registered t n ps =
     list_ex (\<lambda>p. provider_type (config (snd p)) = t \<and> provider_name (config (snd p)) = n) ps"

definition registered_entry :: "string \<Rightarrow> string \<Rightarrow> providers \<Rightarrow> (string \<times> provider_data) option" where
  "registered_entry t n ps =
     find (\<lambda>p. provider_type (config (snd p)) = t \<and> provider_name (config (snd p)) = n) ps"

text \<open>Four rows of the seed data, and the registry \<open>initialize\<close> builds from them.\<close>

definition sample_rows :: "provider_config list" where
  "sample_rows =
     [\<lparr> config_id = ''id-1'', provider_type = ''email'', provider_name = ''sendgrid'', is_default = True \<rparr>,
      \<lparr> config_id = ''id-2'', provider_type = ''email'', provider_name = ''resend'', is_default = False \<rparr>,
      \<lparr> config_id = ''id-3'', provider_type = ''voice'', provider_name = ''vapi'', is_default = True \<rparr>,
      \<lparr> config_id = ''id-4'', provider_type = ''voice'', provider_name = ''twilio'', is_default = False \<rparr>]"

definition sample_registry :: providers where
  "sample_registry = initialize_rows (\<lambda>i. None) sample_rows []"

section \<open>Properties of the classifier\<close>

lemma clamp_between:
  fixes lo :: "'a::{linorder,zero}"
  assumes "lo \<le> d" "d \<le> hi"
  shows "fin_between lo hi (Math_min (Fin hi) (Math_max (Fin lo) (or_num p (Fin d))))"
  using assms by (cases p) (auto simp: Math_min_def Math_max_def or_num_def)

lemma or_num_not_NaN: "or_num p (Fin d) \<noteq> NaN"
  by (cases p) (auto simp: or_num_def)

lemma validateIntent_valid: "validateIntent v \<in> set validIntents"
  by (cases v) (auto simp: validateIntent_def validIntents_def)

lemma validatePersona_valid: "validatePersona v \<in> set validPersonas"
  by (cases v) (auto simp: validatePersona_def validPersonas_def)

lemma validateVertical_valid: "validateVertical v \<in> set validVerticals"
  by (cases v) (auto simp: validateVertical_def validVerticals_def)

lemma try_bind_Inr: "try_bind m f = Inr y \<longleftrightarrow> (\<exists>x. m = Inr x \<and> f x = Inr y)"
  by (cases m) auto

lemma classification_defaults_enforced: "enforced_domain (classification_defaults l)"
  by (simp add: enforced_domain_def classification_defaults_def validIntents_def
      validPersonas_def validVerticals_def)

lemma classifyLead_try_enforced:
  assumes "classifyLead_try bi outcome l = Inr c"
  shows "enforced_domain c"
proof (cases outcome)
  case (ApiThrows e)
  with assms show ?thesis by (simp add: classifyLead_try_def)
next
  case (ApiResponse r)
  with assms obtain ri pu pv rp rv rl ps pp rs rk where
    c: "c = \<lparr> intent = validateIntent ri,
                urgency = Math_min (Fin 10) (Math_max (Fin 1) (or_num pu (Fin 5))),
                estimatedValue = or_num pv (Fin 0),
                persona = validatePersona rp,
                vertical = validateVertical rv,
                language = or_val rl (JStr l),
                score = Math_min (Fin 100) (Math_max (Fin 1) (or_num ps (Fin 50))),
                conversionProbability =
                  Math_min (Fin 1) (Math_max (Fin 0) (or_num pp (Fin (1 / 2)))),
                summary = or_val rs (JStr []),
                keyPhrases = or_val rk (JArr []),
                embeddings = JNull \<rparr>"
    by (auto simp: classifyLead_try_def try_bind_Inr)
  show ?thesis
    unfolding c enforced_domain_def
    by (simp add: clamp_between or_num_not_NaN validateIntent_valid validatePersona_valid
        validateVertical_valid)
qed

lemma classifyLead_enforced: "enforced_domain (classifyLead bi outcome opts)"
  by (auto simp: classifyLead_def Let_def classification_defaults_enforced
      classifyLead_try_enforced split: sum.splits option.splits)

lemma stored_from_enforced:
  assumes "enforced_domain c"
  shows "stored_domain (lead_row a1 a2 a3 a4 a5 c)"
proof -
  from assms have s: "fin_between 1 100 (score c)"
    and p: "fin_between 0 1 (conversionProbability c)"
    by (simp_all add: enforced_domain_def)
  from s have s': "fin_between 1 100 (or_num (score c) (Fin 50))"
    by (cases "score c") (auto simp: or_num_def)
  from p have p': "fin_between 0 1 (or_num (conversionProbability c) (Fin (1 / 2)))"
    by (cases "conversionProbability c") (auto simp: or_num_def)
  from assms s' p' show ?thesis
    by (simp add: enforced_domain_def stored_domain_def lead_row_def)
qed

section \<open>Properties of the ingestion endpoint\<close>

lemma sp_insert_fails:
  "insert_lead env params = Inl e \<Longrightarrow> store_and_publish env ch c params s1 = (Inl e, s1)"
  by (simp add: store_and_publish_def)

lemma sp_insert_ok:
  assumes "insert_lead env params = Inr leadId"
  shows "ledger (snd (store_and_publish env ch c params s1)) = ledger s1 @ [(leadId, params)]"
    and "classifier_calls (snd (store_and_publish env ch c params s1)) = classifier_calls s1"
    and "fst (store_and_publish env ch c params s1) = Inr i \<Longrightarrow> i = leadId"
  using assms
  by (auto simp: store_and_publish_def Let_def split: option.splits prod.splits sum.splits)

lemma sp_bus:
  "bus (snd (store_and_publish env ch c params s1)) = bus s1
   \<or> bus (snd (store_and_publish env ch c params s1))
        = snd (emit ''lead:new'' (published (projr (insert_lead env params)) c ch) (bus s1))"
  by (auto simp: store_and_publish_def Let_def published_def
      split: option.splits prod.splits sum.splits)

lemma truthy_not_nullish: "truthy v \<Longrightarrow> \<not> nullish v"
  by (cases v) (auto simp: nullish_def)


lemma ingest_try_invalid:
  assumes "\<not> truthy (body req) \<or> Object_keys_length (body req) = Inr 0"
  shows "ingest_try env req s = (Inr (empty_payload_response (uuid env)), s)
       \<or> ingest_try env req s = (Inl TypeError, s)"
  using assms unfolding ingest_try_def Let_def extractIdentifier_def
  by (auto split: sum.splits)

lemma ingest_try_valid:
  assumes t: "truthy (body req)" and k: "Object_keys_length (body req) \<noteq> Inr 0"
  shows "\<exists>ch si sp ci. ingest_try env req s =
     (case store_and_publish env ch
             (classifyLead (builtins env) (api_call env (body req))
                \<lparr> preferredLanguage = Some ''en'', detectLanguage = Some True \<rparr>)
             (lead_row ch si sp (body req) ci
                (classifyLead (builtins env) (api_call env (body req))
                  \<lparr> preferredLanguage = Some ''en'', detectLanguage = Some True \<rparr>))
             (s\<lparr> classifier_calls := classifier_calls s @ [body req] \<rparr>) of
        (Inl e, s4) \<Rightarrow> (Inl e, s4)
      | (Inr leadId, s4) \<Rightarrow>
          (Inr (accepted_response (uuid env) leadId
             (classifyLead (builtins env) (api_call env (body req))
                \<lparr> preferredLanguage = Some ''en'', detectLanguage = Some True \<rparr>)), s4))"
proof -
  from t have nn: "\<not> nullish (body req)" by (rule truthy_not_nullish)
  from nn obtain ci where ci: "extractContactInfo (body req) = Inr ci"
    by (simp add: extractContactInfo_def)
  from nn obtain si where si: "(if header_set req ''x-source-id''
                then Inr (JStr (header_or req ''x-source-id'' []))
                else extractIdentifier (body req)) = Inr si"
    by (cases "header_set req ''x-source-id''") (simp_all add: extractIdentifier_def)
  from t k obtain n where n: "Object_keys_length (body req) = Inr n" "n \<noteq> 0"
    by (cases "body req") (auto simp: nullish_def)
  show ?thesis
    unfolding ingest_try_def Let_def
    apply (simp only: si ci n t sum.case if_False if_True not_True_eq_False)
    apply (simp add: n)
    by blast
qed

lemma ingest_accepted:
  assumes i: "ingest env req s = (res, s')" and ok: "res_status res = 202"
  shows "\<exists>leadId row. res_leadId res = Some leadId \<and> insert_lead env row = Inr leadId
           \<and> ledger s' = ledger s @ [(leadId, row)] \<and> stored_domain row
           \<and> classifier_calls s' = classifier_calls s @ [body req]"
proof -
  have v: "truthy (body req) \<and> Object_keys_length (body req) \<noteq> Inr 0"
  proof (rule ccontr)
    assume "\<not> ?thesis"
    then have "\<not> truthy (body req) \<or> Object_keys_length (body req) = Inr 0" by blast
    from ingest_try_invalid [OF this, of env s] i ok show False
      by (auto simp: ingest_def empty_payload_response_def ingestion_failed_response_def)
  qed
  define c where "c = classifyLead (builtins env) (api_call env (body req))
                \<lparr> preferredLanguage = Some ''en'', detectLanguage = Some True \<rparr>"
  define s1 where "s1 = s\<lparr> classifier_calls := classifier_calls s @ [body req] \<rparr>"
  from v ingest_try_valid [of req env s] obtain ch si sp ci where
    t: "ingest_try env req s =
     (case store_and_publish env ch c (lead_row ch si sp (body req) ci c) s1 of
        (Inl e, s4) \<Rightarrow> (Inl e, s4)
      | (Inr leadId, s4) \<Rightarrow> (Inr (accepted_response (uuid env) leadId c), s4))"
    unfolding c_def s1_def by blast
  define row where "row = lead_row ch si sp (body req) ci c"
  obtain r4 s4 where sp: "store_and_publish env ch c row s1 = (r4, s4)"
    by (cases "store_and_publish env ch c row s1") auto
  from i ok t sp obtain leadId where r4: "r4 = Inr leadId" and s4: "s4 = s'"
    and res: "res = accepted_response (uuid env) leadId c"
    by (cases r4) (auto simp: ingest_def row_def ingestion_failed_response_def)
  have ins: "insert_lead env row = Inr leadId"
  proof (cases "insert_lead env row")
    case (Inl e)
    from sp_insert_fails [OF this, of ch c s1] sp r4 show ?thesis by simp
  next
    case (Inr l)
    from sp_insert_ok(3) [OF this, of ch c s1 leadId] sp r4 Inr show ?thesis by simp
  qed
  from sp_insert_ok(1,2) [OF ins, of ch c s1] sp s4
  have "ledger s' = ledger s @ [(leadId, row)]"
    and "classifier_calls s' = classifier_calls s @ [body req]"
    by (simp_all add: s1_def)
  moreover have "stored_domain row"
    unfolding row_def by (rule stored_from_enforced) (simp add: c_def classifyLead_enforced)
  moreover from res have "res_leadId res = Some leadId" by (simp add: accepted_response_def)
  ultimately show ?thesis using ins by blast
qed

lemma classifyLead_catch:
  assumes "classifyLead_try bi outcome (preferred_of opts) = Inl e"
  shows "classifyLead bi outcome opts = classification_defaults (preferred_of opts)"
  using assms by (simp add: classifyLead_def preferred_of_def Let_def)

lemma sp_cases:
  assumes "store_and_publish env ch c row s1 = (r4, s')"
  shows "(\<exists>e. insert_lead env row = Inl e \<and> r4 = Inl e \<and> s' = s1)
       \<or> (\<exists>leadId. insert_lead env row = Inr leadId
             \<and> ledger s' = ledger s1 @ [(leadId, row)]
             \<and> ((bus s' = bus s1 \<and> (\<exists>e. r4 = Inl e))
                \<or> (bus s' = snd (emit ''lead:new'' (published leadId c ch) (bus s1))
                    \<and> (r4 = Inr leadId \<or> (\<exists>e. r4 = Inl e)))))"
proof (cases "insert_lead env row")
  case (Inl e)
  with assms have "r4 = Inl e" and "s' = s1" by (simp_all add: store_and_publish_def)
  with Inl show ?thesis by blast
next
  case (Inr leadId)
  show ?thesis
  proof (cases "insert_audit env leadId c")
    case (Some e)
    with Inr assms show ?thesis by (auto simp: store_and_publish_def Let_def)
  next
    case None
    obtain r b where e: "emit ''lead:new'' (published leadId c ch) (bus s1) = (r, b)"
      by (cases "emit ''lead:new'' (published leadId c ch) (bus s1)") auto
    with Inr None assms show ?thesis
      by (cases r) (auto simp: store_and_publish_def Let_def published_def)
  qed
qed

lemma ingest_shape:
  assumes i: "ingest env req s = (res, s')"
  shows "(\<not> truthy (body req) \<or> Object_keys_length (body req) = Inr 0) \<and> s' = s
           \<and> (res = empty_payload_response (uuid env) \<or> res = ingestion_failed_response (uuid env))
       \<or> truthy (body req) \<and> Object_keys_length (body req) \<noteq> Inr 0
           \<and> (\<exists>ch c row r4. store_and_publish env ch c row
                   (s\<lparr> classifier_calls := classifier_calls s @ [body req] \<rparr>) = (r4, s')
                 \<and> stored_domain row
                 \<and> res = (case r4 of Inl e \<Rightarrow> ingestion_failed_response (uuid env)
                             | Inr leadId \<Rightarrow> accepted_response (uuid env) leadId c))"
proof (cases "truthy (body req) \<and> Object_keys_length (body req) \<noteq> Inr 0")
  case False
  then have "\<not> truthy (body req) \<or> Object_keys_length (body req) = Inr 0" by blast
  from ingest_try_invalid [OF this, of env s] i this show ?thesis
    by (auto simp: ingest_def)
next
  case True
  with ingest_try_valid [of req env s] obtain ch si sp ci where
    t: "ingest_try env req s =
     (case store_and_publish env ch
             (classifyLead (builtins env) (api_call env (body req))
                \<lparr> preferredLanguage = Some ''en'', detectLanguage = Some True \<rparr>)
             (lead_row ch si sp (body req) ci
                (classifyLead (builtins env) (api_call env (body req))
                  \<lparr> preferredLanguage = Some ''en'', detectLanguage = Some True \<rparr>))
             (s\<lparr> classifier_calls := classifier_calls s @ [body req] \<rparr>) of
        (Inl e, s4) \<Rightarrow> (Inl e, s4)
      | (Inr leadId, s4) \<Rightarrow>
          (Inr (accepted_response (uuid env) leadId
             (classifyLead (builtins env) (api_call env (body req))
                \<lparr> preferredLanguage = Some ''en'', detectLanguage = Some True \<rparr>)), s4))"
    by blast
  define c where "c = classifyLead (builtins env) (api_call env (body req))
                \<lparr> preferredLanguage = Some ''en'', detectLanguage = Some True \<rparr>"
  define row where "row = lead_row ch si sp (body req) ci c"
  define s1 where "s1 = s\<lparr> classifier_calls := classifier_calls s @ [body req] \<rparr>"
  obtain r4 s4 where sp: "store_and_publish env ch c row s1 = (r4, s4)"
    by (cases "store_and_publish env ch c row s1") auto
  have dom: "stored_domain row"
    unfolding row_def by (rule stored_from_enforced) (simp add: c_def classifyLead_enforced)
  from i t sp have "s4 = s'"
    and "res = (case r4 of Inl e \<Rightarrow> ingestion_failed_response (uuid env)
                             | Inr leadId \<Rightarrow> accepted_response (uuid env) leadId c)"
    by (cases r4; simp add: ingest_def c_def row_def s1_def)+
  with sp True dom show ?thesis unfolding s1_def by blast
qed

lemma ingest_new_rows:
  assumes i: "ingest env req s = (res, s')"
  shows "list_all (\<lambda>p. stored_domain (snd p)) (drop (length (ledger s)) (ledger s'))"
proof -
  from ingest_shape [OF i] consider
    (invalid) "s' = s"
  | (valid) ch c row r4 where
      "store_and_publish env ch c row
         (s\<lparr> classifier_calls := classifier_calls s @ [body req] \<rparr>) = (r4, s')"
      "stored_domain row"
    by blast
  then show ?thesis
  proof cases
    case invalid
    then show ?thesis by simp
  next
    case valid
    from sp_cases [OF valid(1)] valid(2) show ?thesis by auto
  qed
qed

lemmas demo_simps =
  ingest_def ingest_try_def demo_env_def demo_request_def empty_sys_def
  demo_builtins_def header_set_def header_or_def detectChannel_def extractIdentifier_def
  extractContactInfo_def nullish_def get_prop_opt_def Let_def store_and_publish_def
  lead_row_def accepted_response_def classifyLead_def classifyLead_try_def chat_response_def
  emit_def new_bus_def historyLimit_def toLowerCase_def
  validateIntent_def validatePersona_def validateVertical_def
  validIntents_def validPersonas_def validVerticals_def
  Math_min_def Math_max_def or_num_def or_val_def js_trunc_def
  empty_payload_response_def ingestion_failed_response_def classification_defaults_def

text \<open>
  The guard of step 2 comes after the source identifier is read: a \<open>null\<close> body
  without the header \<open>x-source-id\<close> throws in \<open>extractIdentifier\<close> and is answered by
  the status 500, before the guard is reached.
\<close>

lemma null_body_without_identifier_fails:
  "ingest (demo_env (JObj [])) (demo_request JNull) empty_sys
     = (ingestion_failed_response ''req-1'', empty_sys)"
  by (simp add: demo_simps)

section \<open>Properties of the event bus\<close>

lemma call_listeners_wrapped:
  assumes "\<forall>l\<in>set ls. wrapped l"
  shows "call_listeners ls d b =
           (None, b\<lparr> delivered := delivered b @ map (\<lambda>l. (lid l, d)) ls,
                      handler_errors := handler_errors b @ logged_errors ls d \<rparr>)"
  using assms
proof (induction ls arbitrary: b)
  case Nil
  then show ?case by (simp add: logged_errors_def)
next
  case (Cons l ls)
  then show ?case
    by (cases "handler l d") (simp_all add: logged_errors_def Let_def)
qed

lemma emit_wrapped:
  assumes w: "\<forall>l\<in>set (listeners b). levent l = ev \<longrightarrow> wrapped l"
    and n: "listeners_of ev b \<noteq> []"
  shows "fst (emit ev d b) = Inr True"
    and "delivered (snd (emit ev d b)) = delivered b @ map (\<lambda>l. (lid l, d)) (listeners_of ev b)"
    and "handler_errors (snd (emit ev d b)) = handler_errors b @ logged_errors (listeners_of ev b) d"
    and "listeners (snd (emit ev d b)) = listeners b"
proof -
  from w have "\<forall>l\<in>set (listeners_of ev b). wrapped l"
    by (simp add: listeners_of_def)
  from call_listeners_wrapped [OF this] n
  show "fst (emit ev d b) = Inr True"
    and "delivered (snd (emit ev d b)) = delivered b @ map (\<lambda>l. (lid l, d)) (listeners_of ev b)"
    and "handler_errors (snd (emit ev d b)) = handler_errors b @ logged_errors (listeners_of ev b) d"
    and "listeners (snd (emit ev d b)) = listeners b"
    by (simp_all add: emit_def Let_def listeners_of_def)
qed

lemma emit_all_wrapped:
  assumes w: "\<forall>l\<in>set (listeners b). levent l = ev \<longrightarrow> wrapped l"
    and n: "listeners_of ev b \<noteq> []"
  shows "fst (emit_all ev ds b) = replicate (length ds) (Inr True)
       \<and> delivered (snd (emit_all ev ds b))
           = delivered b @ concat (map (\<lambda>d. map (\<lambda>l. (lid l, d)) (listeners_of ev b)) ds)
       \<and> listeners (snd (emit_all ev ds b)) = listeners b"
  using assms
proof (induction ds arbitrary: b)
  case Nil
  then show ?case by simp
next
  case (Cons d ds)
  obtain r b1 where e: "emit ev d b = (r, b1)" by (cases "emit ev d b") auto
  from emit_wrapped [OF Cons.prems, of d] e
  have r: "r = Inr True"
    and d1: "delivered b1 = delivered b @ map (\<lambda>l. (lid l, d)) (listeners_of ev b)"
    and l1: "listeners b1 = listeners b"
    by simp_all
  from l1 Cons.prems have "\<forall>l\<in>set (listeners b1). levent l = ev \<longrightarrow> wrapped l"
    and "listeners_of ev b1 \<noteq> []" and lo: "listeners_of ev b1 = listeners_of ev b"
    by (simp_all add: listeners_of_def)
  from Cons.IH [OF this(1,2)] e r d1 l1 lo show ?case
    by (simp add: case_prod_unfold)
qed

lemma deliveries_one_round:
  "map snd (filter (\<lambda>p. fst p = i) (map (\<lambda>l. (lid l, d)) ls))
     = replicate (length (filter (\<lambda>l. lid l = i) ls)) d"
  by (induction ls) simp_all

lemma deliveries_rounds:
  assumes "length (filter (\<lambda>l. lid l = i) ls) = 1"
  shows "map snd (filter (\<lambda>p. fst p = i) (concat (map (\<lambda>d. map (\<lambda>l. (lid l, d)) ls) ds))) = ds"
  using assms by (induction ds) (simp_all add: deliveries_one_round)

text \<open>
  The wrapper is what isolates a failure: when the first listener is registered by
  \<open>on\<close> and throws, the exception reaches the caller of \<open>emit\<close> and the subscriber
  after it is not called.
\<close>

lemma raw_listener_exception_reaches_caller:
  "emit ''lead:new'' (7::nat)
     (subscribe 2 ''lead:new'' (\<lambda>d. None)
        (on_raw 1 ''lead:new'' (\<lambda>d. Some (HandlerError ''boom'')) new_bus))
   = (Inl (HandlerError ''boom''),
      \<lparr> listeners =
          [\<lparr> lid = 1, levent = ''lead:new'', wrapped = False,
              handler = (\<lambda>d. Some (HandlerError ''boom'')) \<rparr>,
           \<lparr> lid = 2, levent = ''lead:new'', wrapped = True, handler = (\<lambda>d. None) \<rparr>],
        history = [(''lead:new'', 7)], delivered = [(1, 7)], handler_errors = [] \<rparr>)"
  by (simp add: emit_def subscribe_def on_raw_def new_bus_def historyLimit_def Let_def)

section \<open>Properties of the health monitor\<close>

lemma runHealthChecks_keys: "map fst (runHealthChecks w ps) = map fst ps"
  by (induction ps) auto

lemma runHealthChecks_lookup:
  "map_of (runHealthChecks w ps) k = map_option (check_provider w k) (map_of ps k)"
  by (induction ps) auto

lemma check_provider_healthy:
  "isHealthy (check_provider w k d)
     = (probe w k = ProbeReturns True
        \<and> updateHealth w (config_id (config d)) ''healthy'' = None)"
  by (cases "probe w k")
    (auto simp: check_provider_def check_try_def Let_def split: option.splits)

lemma check_provider_time:
  "lastHealthCheck (check_provider w k d) = Some (clock_try w k)
   \<or> lastHealthCheck (check_provider w k d) = Some (clock_catch w k)"
  by (cases "probe w k")
    (auto simp: check_provider_def check_try_def Let_def split: option.splits)

lemma check_provider_rest:
  "isDefault (check_provider w k d) = isDefault d
   \<and> pinstance (check_provider w k d) = pinstance d
   \<and> config (check_provider w k d) = config d"
  by (cases "probe w k")
    (auto simp: check_provider_def check_try_def Let_def split: option.splits)

lemma check_provider_local:
  assumes "probe w k = probe w' k"
    and "updateHealth w (config_id (config d)) = updateHealth w' (config_id (config d))"
    and "clock_try w k = clock_try w' k" and "clock_catch w k = clock_catch w' k"
  shows "check_provider w k d = check_provider w' k d"
  using assms
  by (cases "probe w' k")
    (simp_all add: check_provider_def check_try_def Let_def split: option.splits)

lemmas health_simps =
  two_providers_def provider_entry_def provider_key_def vapi_down_def vapi_down_db_down_def
  check_provider_def check_try_def Let_def probe_failed_def

section \<open>Properties of the provider manager\<close>

lemma setDefault_ok: "setDefault None None type name ps = Inr (set_flags type name ps)"
  by (simp add: setDefault_def set_flags_def)

lemma prefix_colon:
  assumes "colon_free ty" "colon_free nm" "prefix (t @ '':'') (ty @ '':'' @ nm)"
  shows "t = ty"
proof -
  from assms(3) obtain zs where "ty @ CHR '':'' # nm = t @ CHR '':'' # zs"
    by (auto simp: prefix_def)
  then show ?thesis
    using assms(1,2)
    by (auto simp: append_eq_append_conv2 Cons_eq_append_conv append_eq_Cons_conv colon_free_def)
qed

lemma wf_startsWith:
  assumes "wf_entry (k, d)"
  shows "startsWith k (t @ '':'') = (provider_type (config d) = t)"
  using assms prefix_colon [of "provider_type (config d)" "provider_name (config d)" t]
  by (auto simp: wf_entry_def startsWith_def provider_key_def)

lemma wf_key_eq:
  assumes "wf_entry (k, d)"
  shows "(k = provider_key t n) = (provider_type (config d) = t \<and> provider_name (config d) = n)"
proof
  assume k: "k = provider_key t n"
  with assms have "provider_type (config d) @ '':'' @ provider_name (config d) = (t @ '':'') @ n"
    by (simp add: wf_entry_def provider_key_def)
  then have "prefix (t @ '':'') (provider_type (config d) @ '':'' @ provider_name (config d))"
    by (metis prefixI)
  with assms have "t = provider_type (config d)"
    by (intro prefix_colon) (auto simp: wf_entry_def)
  with k assms show "provider_type (config d) = t \<and> provider_name (config d) = n"
    by (simp add: wf_entry_def provider_key_def)
next
  assume "provider_type (config d) = t \<and> provider_name (config d) = n"
  with assms show "k = provider_key t n" by (simp add: wf_entry_def)
qed


lemma set_flags_keys: "map fst (set_flags t n ps) = map fst ps"
  by (induction ps) (auto simp: set_flags_def)




lemma set_flags_wf_form:
  assumes "list_all wf_entry ps"
  shows "set_flags t n ps =
           map (\<lambda>p. if provider_type (config (snd p)) = t
                     then (fst p, (snd p)\<lparr> isDefault := (fst p = provider_key t n) \<rparr>) else p) ps"
  using assms
  by (induction ps) (auto simp: set_flags_def wf_startsWith)





lemma startsWith_key: "startsWith (provider_key t n) (t @ '':'')"
  by (simp add: startsWith_def provider_key_def)







lemma getProvider_Inr:
  assumes "getProvider t n cfg = Inr i"
  shows "colon_free t \<and> colon_free n \<and> inst_type i = t \<and> inst_name i = n"
  using assms
  by (auto simp: getProvider_def ProviderRegistry_def colon_free_def
      split: option.splits if_splits)

lemma map_set_keys:
  "map fst (map_set k v ps) = (if k \<in> set (map fst ps) then map fst ps else map fst ps @ [k])"
  by (induction k v ps rule: map_set.induct) auto

lemma map_set_entries: "set (map_set k v ps) \<subseteq> insert (k, v) (set ps)"
  by (induction k v ps rule: map_set.induct) auto

lemma map_set_wf:
  assumes "wf_providers ps" "wf_entry (k, v)"
  shows "wf_providers (map_set k v ps)"
  using assms map_set_entries [of k v ps]
  by (auto simp: wf_providers_def map_set_keys list_all_iff)

lemma initializeProvider_wf:
  assumes "wf_providers ps" "initializeProvider init cfg ps = Inr ps'"
  shows "wf_providers ps'"
proof -
  from assms(2) obtain i where g: "getProvider (provider_type cfg) (provider_name cfg) cfg = Inr i"
    and ps': "ps' = map_set (provider_key (provider_type cfg) (provider_name cfg))
                  \<lparr> pinstance = i, config = cfg, isDefault = is_default cfg,
                    lastHealthCheck = None, isHealthy = True \<rparr> ps"
    by (auto simp: initializeProvider_def Let_def split: sum.splits option.splits)
  from getProvider_Inr [OF g] have
    "wf_entry (provider_key (provider_type cfg) (provider_name cfg),
                \<lparr> pinstance = i, config = cfg, isDefault = is_default cfg,
                  lastHealthCheck = None, isHealthy = True \<rparr>)"
    by (simp add: wf_entry_def)
  from map_set_wf [OF assms(1) this] ps' show ?thesis by simp
qed

lemma initialize_rows_wf:
  "wf_providers ps \<Longrightarrow> wf_providers (initialize_rows init rows ps)"
proof (induction rows arbitrary: ps)
  case Nil
  then show ?case by simp
next
  case (Cons cfg rows)
  show ?case
  proof (cases "initializeProvider init cfg ps")
    case (Inl e)
    with Cons show ?thesis by simp
  next
    case (Inr ps')
    with Cons.IH [OF initializeProvider_wf [OF Cons.prems Inr]] show ?thesis by simp
  qed
qed

lemma wf_empty: "wf_providers []"
  by (simp add: wf_providers_def)

lemma sample_registry_eq:
  "sample_registry =
     [provider_entry ''id-1'' ''email'' ''sendgrid'' True,
      provider_entry ''id-2'' ''email'' ''resend'' False,
      provider_entry ''id-3'' ''voice'' ''vapi'' True,
      provider_entry ''id-4'' ''voice'' ''twilio'' False]"
  by (simp add: sample_registry_def sample_rows_def initializeProvider_def getProvider_def
      ProviderRegistry_def provider_key_def provider_entry_def Let_def)

lemma sample_registry_wf: "wf_providers sample_registry"
  unfolding sample_registry_def by (rule initialize_rows_wf [OF wf_empty])

lemmas registry_simps =
  sample_registry_eq provider_entry_def provider_key_def Let_def run_call_def setDefault_def
  ok_call_def startsWith_def default_count_def succeeded_def get_def registered_def
  registered_entry_def

lemma wf_member:
  assumes "wf_providers ps" "p \<in> set ps"
  shows "wf_entry (fst p, snd p)"
  using assms by (auto simp: wf_providers_def list_all_iff)

lemma get_named:
  "n \<noteq> [] \<Longrightarrow> get t (Some n) ps =
     (case map_of ps (provider_key t n) of None \<Rightarrow> Undefined | Some d \<Rightarrow> Found (pinstance d))"
  by (simp add: get_def)

lemma map_of_registered:
  assumes "list_all wf_entry ps"
  shows "map_of ps (provider_key t n) = map_option snd (registered_entry t n ps)"
  using assms
proof (induction ps)
  case Nil
  then show ?case by (simp add: registered_entry_def)
next
  case (Cons p ps)
  obtain k d where p: "p = (k, d)" by (cases p)
  from Cons.prems p have w: "wf_entry (k, d)" and ws: "list_all wf_entry ps" by simp_all
  from Cons.IH [OF ws] wf_key_eq [OF w, of t n] p show ?case
    by (auto simp: registered_entry_def)
qed

lemma find_Some_member:
  assumes "find P xs = Some x"
  shows "x \<in> set xs" and "P x"
  using assms by (induction xs) (auto split: if_splits)

lemma get_type:
  assumes wf: "wf_providers ps" and g: "get t nm ps = Found i"
  shows "inst_type i = t"
proof -
  have key: "inst_type (pinstance d) = t" if "(k, d) \<in> set ps" "startsWith k (t @ '':'')" for k d
    using wf_member [OF wf that(1)] that(2) wf_startsWith [of k d t]
    by (simp add: wf_entry_def)
  show ?thesis
  proof (cases "nm \<noteq> None \<and> nm \<noteq> Some []")
    case True
    with g obtain d where m: "map_of ps (provider_key t (the nm)) = Some d" and i: "i = pinstance d"
      by (auto simp: get_def split: option.splits)
    from map_of_SomeD [OF m] have "(provider_key t (the nm), d) \<in> set ps" .
    from key [OF this startsWith_key] i show ?thesis by simp
  next
    case False
    show ?thesis
    proof (cases "find (\<lambda>(key, d). startsWith key (t @ '':'') \<and> isDefault d) ps")
      case (Some p)
      from find_Some_member [OF Some] have "p \<in> set ps" and "startsWith (fst p) (t @ '':'')"
        by (auto simp: case_prod_unfold)
      from key [of "fst p" "snd p"] this g False Some show ?thesis
        by (auto simp: get_def case_prod_unfold)
    next
      case None
      with g False obtain p where f: "find (\<lambda>(key, d). startsWith key (t @ '':'')) ps = Some p"
        and i: "i = pinstance (snd p)"
        by (auto simp: get_def case_prod_unfold split: option.splits)
      from find_Some_member [OF f] have "p \<in> set ps" and "startsWith (fst p) (t @ '':'')"
        by (auto simp: case_prod_unfold)
      from key [of "fst p" "snd p"] this i show ?thesis by simp
    qed
  qed
qed

lemma get_no_type:
  assumes wf: "wf_providers ps"
    and n: "\<not> list_ex (\<lambda>p. provider_type (config (snd p)) = t) ps"
  shows "get t None ps = Null"
proof -
  have "\<not> startsWith (fst p) (t @ '':'')" if "p \<in> set ps" for p
    using wf_member [OF wf that] n that wf_startsWith [of "fst p" "snd p" t]
    by (auto simp: list_ex_iff)
  then have "find (\<lambda>(key, d). startsWith key (t @ '':'')) ps = None"
    and "find (\<lambda>(key, d). startsWith key (t @ '':'') \<and> isDefault d) ps = None"
    by (auto simp: find_None_iff)
  then show ?thesis by (simp add: get_def)
qed

lemma set_flags_unregistered:
  assumes wf: "wf_providers ps" and n: "\<not> registered t n ps"
  shows "default_count t (set_flags t n ps) = 0"
proof -
  from wf have w: "list_all wf_entry ps" by (simp add: wf_providers_def)
  have "fst p \<noteq> provider_key t n" if "p \<in> set ps" for p
    using wf_member [OF wf that] wf_key_eq [of "fst p" "snd p" t n] n that
    by (auto simp: registered_def list_ex_iff)
  then have "filter (\<lambda>p. provider_type (config (snd p)) = t \<and> isDefault (snd p))
               (set_flags t n ps) = []"
    unfolding set_flags_wf_form [OF w] by (auto simp: filter_empty_conv)
  then show ?thesis by (simp add: default_count_def)
qed

lemma unregistered_entry:
  "\<not> registered t n ps \<Longrightarrow> registered_entry t n ps = None"
  by (auto simp: registered_def registered_entry_def list_ex_iff find_None_iff)

lemma set_flags_no_type:
  assumes wf: "wf_providers ps"
    and n: "\<not> list_ex (\<lambda>p. provider_type (config (snd p)) = t) ps"
  shows "set_flags t n ps = ps"
proof -
  from wf have w: "list_all wf_entry ps" by (simp add: wf_providers_def)
  from n have "\<forall>p\<in>set ps. provider_type (config (snd p)) \<noteq> t"
    by (simp add: list_ex_iff)
  then show ?thesis
    unfolding set_flags_wf_form [OF w] by (simp add: map_idI)
qed

lemma clamp_is_documented:
  fixes lo :: "'a::{linorder,zero}"
  assumes "lo \<le> d" "d \<le> hi"
  shows "Math_min (Fin hi) (Math_max (Fin lo) (or_num p (Fin d))) = clamp_or_default lo hi d p"
  using assms by (cases p) (auto simp: Math_min_def Math_max_def or_num_def)

lemma or_num_is_documented: "or_num p (Fin d) = number_or_default d p"
  by (cases p) (auto simp: or_num_def)

lemma validate_is_documented:
  "validateIntent v = enum_or_default validIntents ''other'' v"
  "validatePersona v = enum_or_default validPersonas ''professional'' v"
  "validateVertical v = enum_or_default validVerticals ''other'' v"
  by (cases v; simp add: validateIntent_def validatePersona_def validateVertical_def
      enum_or_default_def)+

lemma get_prop_not_nullish: "\<not> nullish v \<Longrightarrow> get_prop v k = Inr (get_prop_opt v k)"
  by (cases v) (simp_all add: nullish_def get_prop_opt_def)

lemma classifyLead_try_content:
  assumes "reply_content response = Inr content"
  shows "classifyLead_try bi (ApiResponse response) l
           = classifyLead_try bi (ApiResponse (chat_response content)) l"
proof -
  from assms obtain choices choice message where
    "get_prop response ''choices'' = Inr choices" "get_index choices 0 = Inr choice"
    "get_prop choice ''message'' = Inr message" "get_prop message ''content'' = Inr content"
    by (auto simp: reply_content_def try_bind_Inr)
  then show ?thesis by (simp add: classifyLead_try_def chat_response_def)
qed

lemma classifyLead_documented:
  assumes rc: "reply_content response = Inr content"
    and jp: "JSON_parse bi content = Inr result" and nn: "\<not> nullish result"
    and pu: "parseInt bi (get_prop_opt result ''urgency'') = Inr pu"
    and pv: "parseFloat bi (get_prop_opt result ''estimatedValue'') = Inr pv"
    and ps: "parseInt bi (get_prop_opt result ''score'') = Inr ps"
    and pp: "parseFloat bi (get_prop_opt result ''conversionProbability'') = Inr pp"
  shows "classifyLead bi (ApiResponse response) opts
           = documented_result (preferred_of opts) result pu pv ps pp"
proof -
  have "classifyLead_try bi (ApiResponse (chat_response content)) (preferred_of opts)
          = Inr (documented_result (preferred_of opts) result pu pv ps pp)"
    by (simp add: classifyLead_try_def chat_response_def jp get_prop_not_nullish [OF nn]
        pu pv ps pp documented_result_def clamp_is_documented
        or_num_is_documented [of pv 0] validate_is_documented)
  with classifyLead_try_content [OF rc, of bi "preferred_of opts"] show ?thesis
    by (simp add: classifyLead_def preferred_of_def Let_def)
qed

lemma classifyLead_empty_reply:
  assumes rc: "reply_content response = Inr content"
    and jp: "JSON_parse bi content = Inr (JObj [])"
  shows "classifyLead bi (ApiResponse response) opts
           = \<lparr> intent = ''other'', urgency = Fin 5, estimatedValue = Fin 0,
               persona = ''professional'', vertical = ''other'',
               language = JStr (preferred_of opts), score = Fin 50,
               conversionProbability = Fin (1 / 2), summary = JStr [],
               keyPhrases = JArr [], embeddings = JNull \<rparr>"
proof -
  have "classifyLead bi (ApiResponse response) opts
           = documented_result (preferred_of opts) (JObj []) NaN NaN NaN NaN"
    by (rule classifyLead_documented [OF rc jp]) (simp_all add: nullish_def get_prop_opt_def)
  then show ?thesis
    by (simp add: documented_result_def get_prop_opt_def enum_or_default_def or_val_def)
qed

lemma stored_from_lead_row:
  assumes "enforced_domain c"
  shows "stored_from c (lead_row a1 a2 a3 a4 a5 c)"
proof -
  from assms have s: "fin_between 1 100 (score c)"
    and p: "fin_between 0 1 (conversionProbability c)"
    by (simp_all add: enforced_domain_def)
  from s have s': "or_num (score c) (Fin 50) = score c"
    by (cases "score c") (auto simp: or_num_def)
  from p have p': "or_num (conversionProbability c) (Fin (1 / 2))
                     = stored_probability (conversionProbability c)"
    by (cases "conversionProbability c") (auto simp: or_num_def stored_probability_def)
  from s' p' show ?thesis by (simp add: stored_from_def lead_row_def)
qed

lemma ingest_shape_rows:
  assumes i: "ingest env req s = (res, s')"
  shows "(\<not> truthy (body req) \<or> Object_keys_length (body req) = Inr 0) \<and> s' = s
           \<and> (res = empty_payload_response (uuid env) \<or> res = ingestion_failed_response (uuid env))
       \<or> truthy (body req) \<and> Object_keys_length (body req) \<noteq> Inr 0
           \<and> (\<exists>ch row r4. store_and_publish env ch
                   (classifyLead (builtins env) (api_call env (body req)) ingest_options) row
                   (s\<lparr> classifier_calls := classifier_calls s @ [body req] \<rparr>) = (r4, s')
                 \<and> stored_domain row
                 \<and> stored_from (classifyLead (builtins env) (api_call env (body req)) ingest_options) row
                 \<and> res = (case r4 of Inl e \<Rightarrow> ingestion_failed_response (uuid env)
                             | Inr leadId \<Rightarrow> accepted_response (uuid env) leadId
                                 (classifyLead (builtins env) (api_call env (body req)) ingest_options)))"
proof (cases "truthy (body req) \<and> Object_keys_length (body req) \<noteq> Inr 0")
  case False
  then have "\<not> truthy (body req) \<or> Object_keys_length (body req) = Inr 0" by blast
  from ingest_try_invalid [OF this, of env s] i this show ?thesis
    by (auto simp: ingest_def)
next
  case True
  define c where "c = classifyLead (builtins env) (api_call env (body req)) ingest_options"
  from True ingest_try_valid [of req env s] obtain ch si sp ci where
    t: "ingest_try env req s =
     (case store_and_publish env ch c (lead_row ch si sp (body req) ci c)
             (s\<lparr> classifier_calls := classifier_calls s @ [body req] \<rparr>) of
        (Inl e, s4) \<Rightarrow> (Inl e, s4)
      | (Inr leadId, s4) \<Rightarrow> (Inr (accepted_response (uuid env) leadId c), s4))"
    unfolding c_def ingest_options_def by blast
  define row where "row = lead_row ch si sp (body req) ci c"
  define s1 where "s1 = s\<lparr> classifier_calls := classifier_calls s @ [body req] \<rparr>"
  obtain r4 s4 where sp: "store_and_publish env ch c row s1 = (r4, s4)"
    by (cases "store_and_publish env ch c row s1") auto
  have e: "enforced_domain c" by (simp add: c_def classifyLead_enforced)
  have dom: "stored_domain row" and fr: "stored_from c row"
    unfolding row_def by (rule stored_from_enforced [OF e], rule stored_from_lead_row [OF e])
  from i t sp have "s4 = s'"
    and "res = (case r4 of Inl e \<Rightarrow> ingestion_failed_response (uuid env)
                             | Inr leadId \<Rightarrow> accepted_response (uuid env) leadId c)"
    by (cases r4; simp add: ingest_def row_def s1_def)+
  with sp True dom fr show ?thesis unfolding s1_def c_def by blast
qed

lemma ingest_rows_from_classification:
  assumes i: "ingest env req s = (res, s')"
  shows "list_all (\<lambda>p. stored_domain (snd p)
            \<and> stored_from (classifyLead (builtins env) (api_call env (body req)) ingest_options) (snd p))
           (drop (length (ledger s)) (ledger s'))"
    and "res_status res = 202 \<Longrightarrow>
           \<exists>leadId row. res_leadId res = Some leadId \<and> ledger s' = ledger s @ [(leadId, row)]
             \<and> stored_domain row
             \<and> stored_from (classifyLead (builtins env) (api_call env (body req)) ingest_options) row"
proof -
  define c where "c = classifyLead (builtins env) (api_call env (body req)) ingest_options"
  from ingest_shape_rows [OF i] consider
    (invalid) "s' = s"
      "res = empty_payload_response (uuid env) \<or> res = ingestion_failed_response (uuid env)"
  | (valid) ch row r4 where
      "store_and_publish env ch c row
         (s\<lparr> classifier_calls := classifier_calls s @ [body req] \<rparr>) = (r4, s')"
      "stored_domain row" "stored_from c row"
      "res = (case r4 of Inl e \<Rightarrow> ingestion_failed_response (uuid env)
                | Inr leadId \<Rightarrow> accepted_response (uuid env) leadId c)"
    unfolding c_def by blast
  then have "list_all (\<lambda>p. stored_domain (snd p) \<and> stored_from c (snd p))
               (drop (length (ledger s)) (ledger s'))
           \<and> (res_status res = 202 \<longrightarrow>
                (\<exists>leadId row. res_leadId res = Some leadId \<and> ledger s' = ledger s @ [(leadId, row)]
                   \<and> stored_domain row \<and> stored_from c row))"
  proof cases
    case invalid
    then show ?thesis
      by (auto simp: empty_payload_response_def ingestion_failed_response_def)
  next
    case valid
    from sp_cases [OF valid(1)] valid(2,3,4) show ?thesis
      by (auto simp: ingestion_failed_response_def accepted_response_def)
  qed
  then show "list_all (\<lambda>p. stored_domain (snd p)
            \<and> stored_from (classifyLead (builtins env) (api_call env (body req)) ingest_options) (snd p))
           (drop (length (ledger s)) (ledger s'))"
    and "res_status res = 202 \<Longrightarrow>
           \<exists>leadId row. res_leadId res = Some leadId \<and> ledger s' = ledger s @ [(leadId, row)]
             \<and> stored_domain row
             \<and> stored_from (classifyLead (builtins env) (api_call env (body req)) ingest_options) row"
    unfolding c_def by blast+
qed

lemma set_flags_other_entries:
  assumes "wf_providers ps" "t' \<noteq> t"
  shows "filter (\<lambda>p. provider_type (config (snd p)) = t') (set_flags t n ps)
           = filter (\<lambda>p. provider_type (config (snd p)) = t') ps"
proof -
  from assms have w: "list_all wf_entry ps" by (simp add: wf_providers_def)
  show ?thesis
    unfolding set_flags_wf_form [OF w]
    using assms(2) by (induction ps) auto
qed

lemma get_unknown_type:
  assumes wf: "wf_providers ps"
    and n: "\<not> list_ex (\<lambda>p. provider_type (config (snd p)) = t) ps"
  shows "get t nm ps = (if nm \<noteq> None \<and> nm \<noteq> Some [] then Undefined else Null)"
proof (cases "nm \<noteq> None \<and> nm \<noteq> Some []")
  case True
  then obtain m where nm: "nm = Some m" "m \<noteq> []" by auto
  from wf have w: "list_all wf_entry ps" by (simp add: wf_providers_def)
  from n have "\<not> registered t m ps" by (auto simp: registered_def list_ex_iff)
  with nm show ?thesis
    by (simp add: get_named map_of_registered [OF w] unregistered_entry)
next
  case False
  have "\<not> startsWith (fst p) (t @ '':'')" if "p \<in> set ps" for p
    using wf_member [OF wf that] n that wf_startsWith [of "fst p" "snd p" t]
    by (auto simp: list_ex_iff)
  then have "find (\<lambda>(key, d). startsWith key (t @ '':'')) ps = None"
    and "find (\<lambda>(key, d). startsWith key (t @ '':'') \<and> isDefault d) ps = None"
    by (auto simp: find_None_iff)
  with False show ?thesis by (auto simp: get_def)
qed

section \<open>The claims\<close>

text \<open>
  Claim C1, as amended. The classification fields of every row a request appends to the
  ledger are those of the result of \<open>classifyLead\<close> for its body (a conversion
  probability 0 being stored as 0.5), and they lie in the domains the code enforces: the
  urgency is an integer in [1,10], the score an integer in [1,100], the conversion
  probability a number in [0,1], the intent, the persona and the vertical are members
  of their enumerations, and the estimated value is a number (never NaN); an accepted
  request (status 202) appends exactly one such row, under the lead identifier returned.
  On a parsed reply \<open>classifyLead\<close> returns the documented replacements: an intent,
  persona or vertical outside its enumeration, or missing, becomes other, professional,
  other; the urgency and the score are read with \<open>parseInt\<close>, the conversion
  probability and the estimated value with \<open>parseFloat\<close>; an urgency, score or
  conversion probability that is missing, or reads as zero or as not a number, becomes
  5, 50, 0.5, and any other value read is cut to its range; an estimated value that is
  missing, or reads as zero or as not a number, becomes 0, and any other value read is
  kept as it is, a negative one included. A reply without any field gives all the
  defaults.
\<close>

theorem stored_classification_within_domain:
  assumes "ingest env req s = (res, s')"
  shows "enforced_domain (classifyLead bi outcome opts)
       \<and> list_all (\<lambda>p. stored_domain (snd p)
            \<and> stored_from (classifyLead (builtins env) (api_call env (body req)) ingest_options) (snd p))
           (drop (length (ledger s)) (ledger s'))
       \<and> (res_status res = 202 \<longrightarrow>
            (\<exists>leadId row. res_leadId res = Some leadId
               \<and> ledger s' = ledger s @ [(leadId, row)] \<and> stored_domain row
               \<and> stored_from (classifyLead (builtins env) (api_call env (body req)) ingest_options) row))
       \<and> (reply_content response = Inr content \<and> JSON_parse bi content = Inr result
            \<and> \<not> nullish result
            \<and> parseInt bi (get_prop_opt result ''urgency'') = Inr pu
            \<and> parseFloat bi (get_prop_opt result ''estimatedValue'') = Inr pv
            \<and> parseInt bi (get_prop_opt result ''score'') = Inr ps
            \<and> parseFloat bi (get_prop_opt result ''conversionProbability'') = Inr pp \<longrightarrow>
            classifyLead bi (ApiResponse response) opts
              = documented_result (preferred_of opts) result pu pv ps pp)
       \<and> (reply_content response' = Inr content' \<and> JSON_parse bi content' = Inr (JObj []) \<longrightarrow>
            classifyLead bi (ApiResponse response') opts
              = \<lparr> intent = ''other'', urgency = Fin 5, estimatedValue = Fin 0,
                  persona = ''professional'', vertical = ''other'',
                  language = JStr (preferred_of opts), score = Fin 50,
                  conversionProbability = Fin (1 / 2), summary = JStr [],
                  keyPhrases = JArr [], embeddings = JNull \<rparr>)"
  using ingest_rows_from_classification [OF assms]
    classifyLead_enforced [of bi outcome opts]
    classifyLead_documented [of response content bi result pu pv ps pp opts]
    classifyLead_empty_reply [of response' content' bi opts]
  by blast

text \<open>
  A reply with the intent flying, the urgency 15, an estimated value that is no number,
  the score 0 and the conversion probability -3 is classified as other, 10, 0, 50 and 0,
  and stored with the conversion probability 0.5; the empty reply gives the defaults.
\<close>

theorem stored_classification_within_domain_witness:
  "reply_content (chat_response (JStr ''reply'')) = Inr (JStr ''reply'')
   \<and> JSON_parse (demo_builtins odd_reply) (JStr ''reply'') = Inr odd_reply
   \<and> parseInt (demo_builtins odd_reply) (get_prop_opt odd_reply ''urgency'') = Inr (Fin 15)
   \<and> parseFloat (demo_builtins odd_reply) (get_prop_opt odd_reply ''estimatedValue'') = Inr NaN
   \<and> parseInt (demo_builtins odd_reply) (get_prop_opt odd_reply ''score'') = Inr (Fin 0)
   \<and> parseFloat (demo_builtins odd_reply) (get_prop_opt odd_reply ''conversionProbability'')
       = Inr (Fin (- 3))
   \<and> classifyLead (demo_builtins odd_reply) (ApiResponse (chat_response (JStr ''reply'')))
        ingest_options
       = \<lparr> intent = ''other'', urgency = Fin 10, estimatedValue = Fin 0,
           persona = ''professional'', vertical = ''other'', language = JStr ''en'',
           score = Fin 50, conversionProbability = Fin 0, summary = JStr [],
           keyPhrases = JArr [], embeddings = JNull \<rparr>
   \<and> classifyLead (demo_builtins (JObj [])) (ApiResponse (chat_response (JStr ''reply'')))
        ingest_options
       = \<lparr> intent = ''other'', urgency = Fin 5, estimatedValue = Fin 0,
           persona = ''professional'', vertical = ''other'', language = JStr ''en'',
           score = Fin 50, conversionProbability = Fin (1 / 2), summary = JStr [],
           keyPhrases = JArr [], embeddings = JNull \<rparr>
   \<and> res_status (fst (ingest (demo_env odd_reply) phone_request empty_sys)) = 202
   \<and> map (\<lambda>p. (detected_intent (snd p), detected_urgency (snd p), estimated_value (snd p),
                required_persona (snd p), business_vertical (snd p), lead_score (snd p),
                conversion_probability (snd p)))
        (ledger (snd (ingest (demo_env odd_reply) phone_request empty_sys)))
       = [(''other'', Fin 10, Fin 0, ''professional'', ''other'', Fin 50, Fin (1 / 2))]
   \<and> (\<exists>leadId row.
         res_leadId (fst (ingest (demo_env odd_reply) phone_request empty_sys)) = Some leadId
         \<and> ledger (snd (ingest (demo_env odd_reply) phone_request empty_sys))
             = ledger empty_sys @ [(leadId, row)]
         \<and> stored_domain row
         \<and> stored_from (classifyLead (builtins (demo_env odd_reply))
                          (api_call (demo_env odd_reply) (body phone_request)) ingest_options) row)"
proof -
  have h1: "reply_content (chat_response (JStr ''reply'')) = Inr (JStr ''reply'')"
    by (simp add: reply_content_def chat_response_def)
  have h2: "JSON_parse (demo_builtins odd_reply) (JStr ''reply'') = Inr odd_reply"
    and h2': "JSON_parse (demo_builtins (JObj [])) (JStr ''reply'') = Inr (JObj [])"
    by (simp_all add: demo_builtins_def)
  have h3: "\<not> nullish odd_reply" by (simp add: nullish_def odd_reply_def)
  have h4: "parseInt (demo_builtins odd_reply) (get_prop_opt odd_reply ''urgency'') = Inr (Fin 15)"
    and h5: "parseFloat (demo_builtins odd_reply) (get_prop_opt odd_reply ''estimatedValue'') = Inr NaN"
    and h6: "parseInt (demo_builtins odd_reply) (get_prop_opt odd_reply ''score'') = Inr (Fin 0)"
    and h7: "parseFloat (demo_builtins odd_reply) (get_prop_opt odd_reply ''conversionProbability'')
               = Inr (Fin (- 3))"
    by (simp_all add: odd_reply_def get_prop_opt_def demo_builtins_def js_trunc_def)
  have p: "preferred_of ingest_options = ''en''"
    by (simp add: preferred_of_def ingest_options_def)
  have d: "documented_result ''en'' odd_reply (Fin 15) NaN (Fin 0) (Fin (- 3))
       = \<lparr> intent = ''other'', urgency = Fin 10, estimatedValue = Fin 0,
           persona = ''professional'', vertical = ''other'', language = JStr ''en'',
           score = Fin 50, conversionProbability = Fin 0, summary = JStr [],
           keyPhrases = JArr [], embeddings = JNull \<rparr>"
    by (simp add: documented_result_def odd_reply_def get_prop_opt_def enum_or_default_def
        or_val_def validIntents_def validPersonas_def validVerticals_def)
  have i1: "res_status (fst (ingest (demo_env odd_reply) phone_request empty_sys)) = 202"
    by (simp add: phone_request_def odd_reply_def demo_simps)
  have i2: "map (\<lambda>p. (detected_intent (snd p), detected_urgency (snd p), estimated_value (snd p),
                required_persona (snd p), business_vertical (snd p), lead_score (snd p),
                conversion_probability (snd p)))
        (ledger (snd (ingest (demo_env odd_reply) phone_request empty_sys)))
       = [(''other'', Fin 10, Fin 0, ''professional'', ''other'', Fin 50, Fin (1 / 2))]"
    by (simp add: phone_request_def odd_reply_def demo_simps)
  note t1 = stored_classification_within_domain [OF surjective_pairing,
      where env = "demo_env odd_reply" and req = phone_request and s = empty_sys
        and bi = "demo_builtins odd_reply" and opts = ingest_options
        and response = "chat_response (JStr ''reply'')" and content = "JStr ''reply''"
        and result = odd_reply and pu = "Fin 15" and pv = NaN and ps = "Fin 0" and pp = "Fin (- 3)"]
  from t1 i1 have ex: "\<exists>leadId row.
         res_leadId (fst (ingest (demo_env odd_reply) phone_request empty_sys)) = Some leadId
         \<and> ledger (snd (ingest (demo_env odd_reply) phone_request empty_sys))
             = ledger empty_sys @ [(leadId, row)]
         \<and> stored_domain row
         \<and> stored_from (classifyLead (builtins (demo_env odd_reply))
                          (api_call (demo_env odd_reply) (body phone_request)) ingest_options) row"
    by blast
  from stored_classification_within_domain [OF surjective_pairing,
      where bi = "demo_builtins odd_reply" and opts = ingest_options
        and response = "chat_response (JStr ''reply'')" and content = "JStr ''reply''"
        and result = odd_reply and pu = "Fin 15" and pv = NaN and ps = "Fin 0" and pp = "Fin (- 3)"]
    stored_classification_within_domain [OF surjective_pairing,
      where bi = "demo_builtins (JObj [])" and opts = ingest_options
        and response' = "chat_response (JStr ''reply'')" and content' = "JStr ''reply''"]
    h1 h2 h2' h3 h4 h5 h6 h7 i1 i2 ex
  show ?thesis by (simp add: p d)
qed

text \<open>
  Claim C1 as stated fails: the classifier replies with the estimated value -5, the
  request is accepted, and the row stored holds -5, outside the documented domain.
\<close>

theorem negative_value_stored_raw:
  "res_status (fst (ingest (demo_env (JObj [(''estimatedValue'', JNum (Fin (- 5)))]))
          (demo_request (JObj [(''phone'', JStr ''+1234567890'')])) empty_sys)) = 202
   \<and> map (\<lambda>p. estimated_value (snd p))
        (ledger (snd (ingest (demo_env (JObj [(''estimatedValue'', JNum (Fin (- 5)))]))
          (demo_request (JObj [(''phone'', JStr ''+1234567890'')])) empty_sys))) = [Fin (- 5)]
   \<and> \<not> list_all (\<lambda>p. documented_stored_domain (snd p))
        (ledger (snd (ingest (demo_env (JObj [(''estimatedValue'', JNum (Fin (- 5)))]))
          (demo_request (JObj [(''phone'', JStr ''+1234567890'')])) empty_sys)))"
  by (simp add: demo_simps documented_stored_domain_def)

text \<open>
  Claim C2. \<open>calculatePriority\<close> is a function of the urgency, the estimated value and
  the intent of the classification alone: it equals the base 5 plus the three bonuses of
  the table, cut at 10, and it always lies in [5,10].
\<close>

theorem calculatePriority_formula:
  "calculatePriority c = spec_priority (urgency c) (estimatedValue c) (intent c)
   \<and> 5 \<le> calculatePriority c \<and> calculatePriority c \<le> 10"
  by (simp add: calculatePriority_def spec_priority_def urgencyBonus_def valueBonus_def
      intentBonus_def Let_def)

text \<open>An urgent, valuable lawsuit reaches the cap: 5 + 3 + 2 + 2 is cut to 10.\<close>

theorem calculatePriority_formula_witness:
  "calculatePriority ((classification_defaults ''en'')
     \<lparr> urgency := Fin 9, estimatedValue := Fin 60000, intent := ''suing'' \<rparr>) = 10"
  using calculatePriority_formula [of "(classification_defaults ''en'')
     \<lparr> urgency := Fin 9, estimatedValue := Fin 60000, intent := ''suing'' \<rparr>"]
  by (simp add: spec_priority_def urgencyBonus_def valueBonus_def intentBonus_def
      classification_defaults_def num_ge_def num_gt_def)

text \<open>
  Claim C3. When the call of the external classifier throws (an error, a time-out raised
  by the client), when the content of its reply does not parse, when it parses to
  \<open>null\<close>, and in general whenever anything in the \<open>try\<close> block throws,
  \<open>classifyLead\<close> returns, and what it returns is exactly the default result: intent
  other, urgency 5, estimated value 0, persona professional, vertical other, the
  preferred language, score 30, conversion probability 0.3, and the summary that asks
  for a manual review.
\<close>

theorem classifier_failure_gives_defaults:
  "classifyLead bi (ApiThrows e) opts = classification_defaults (preferred_of opts)
   \<and> (JSON_parse bi content = Inl e' \<longrightarrow>
        classifyLead bi (ApiResponse (chat_response content)) opts
          = classification_defaults (preferred_of opts))
   \<and> (JSON_parse bi content' = Inr JNull \<longrightarrow>
        classifyLead bi (ApiResponse (chat_response content')) opts
          = classification_defaults (preferred_of opts))
   \<and> (classifyLead_try bi outcome (preferred_of opts) = Inl e'' \<longrightarrow>
        classifyLead bi outcome opts = classification_defaults (preferred_of opts))
   \<and> classification_defaults (preferred_of opts) =
        \<lparr> intent = ''other'', urgency = Fin 5, estimatedValue = Fin 0,
          persona = ''professional'', vertical = ''other'',
          language = JStr (preferred_of opts), score = Fin 30,
          conversionProbability = Fin (3 / 10),
          summary = JStr ''Classification failed - manual review needed'',
          keyPhrases = JArr [], embeddings = JNull \<rparr>"
proof -
  have a: "classifyLead bi (ApiThrows e) opts = classification_defaults (preferred_of opts)"
    by (rule classifyLead_catch [of _ _ _ e]) (simp add: classifyLead_try_def)
  have b: "classifyLead bi (ApiResponse (chat_response content)) opts
          = classification_defaults (preferred_of opts)" if "JSON_parse bi content = Inl e'"
    by (rule classifyLead_catch [of _ _ _ e'])
      (simp add: classifyLead_try_def chat_response_def that)
  have c: "classifyLead bi (ApiResponse (chat_response content')) opts
          = classification_defaults (preferred_of opts)" if "JSON_parse bi content' = Inr JNull"
    by (rule classifyLead_catch [of _ _ _ TypeError])
      (simp add: classifyLead_try_def chat_response_def that)
  have d: "classification_defaults (preferred_of opts) =
        \<lparr> intent = ''other'', urgency = Fin 5, estimatedValue = Fin 0,
          persona = ''professional'', vertical = ''other'',
          language = JStr (preferred_of opts), score = Fin 30,
          conversionProbability = Fin (3 / 10),
          summary = JStr ''Classification failed - manual review needed'',
          keyPhrases = JArr [], embeddings = JNull \<rparr>"
    by (simp add: classification_defaults_def)
  from a b c d classifyLead_catch [of bi outcome opts e''] show ?thesis
    by blast
qed

text \<open>
  A time-out, a reply that is not JSON, a reply \<open>null\<close> and a response without choices
  all give the defaults, and a request whose classification failed is still accepted.
\<close>

theorem classifier_failure_gives_defaults_witness:
  "classifyLead sample_builtins (ApiThrows (ApiError ''timeout'')) demo_options
     = classification_defaults ''en''
   \<and> classifyLead sample_builtins (ApiResponse (chat_response (JStr ''not json''))) demo_options
     = classification_defaults ''en''
   \<and> classifyLead sample_builtins (ApiResponse (chat_response (JStr ''null''))) demo_options
     = classification_defaults ''en''
   \<and> classifyLead sample_builtins (ApiResponse JNull) demo_options
     = classification_defaults ''en''
   \<and> classification_defaults ''en'' =
        \<lparr> intent = ''other'', urgency = Fin 5, estimatedValue = Fin 0,
          persona = ''professional'', vertical = ''other'',
          language = JStr ''en'', score = Fin 30,
          conversionProbability = Fin (3 / 10),
          summary = JStr ''Classification failed - manual review needed'',
          keyPhrases = JArr [], embeddings = JNull \<rparr>
   \<and> res_status (fst (ingest ((demo_env JNull)\<lparr> api_call := (\<lambda>raw. ApiThrows (ApiError ''timeout'')) \<rparr>)
          (demo_request (JObj [(''phone'', JStr ''+1234567890'')])) empty_sys)) = 202
   \<and> res_classification (fst (ingest ((demo_env JNull)\<lparr> api_call := (\<lambda>raw. ApiThrows (ApiError ''timeout'')) \<rparr>)
          (demo_request (JObj [(''phone'', JStr ''+1234567890'')])) empty_sys))
       = Some \<lparr> sum_intent = ''other'', sum_urgency = Fin 5, sum_persona = ''professional'',
                sum_language = JStr ''en'' \<rparr>"
proof -
  have p: "preferred_of demo_options = ''en''"
    by (simp add: preferred_of_def demo_options_def)
  have h1: "JSON_parse sample_builtins (JStr ''not json'') = Inl SyntaxError"
    by (simp add: sample_builtins_def sample_parse_def)
  have h2: "JSON_parse sample_builtins (JStr ''null'') = Inr JNull"
    by (simp add: sample_builtins_def sample_parse_def)
  have h3: "classifyLead_try sample_builtins (ApiResponse JNull) (preferred_of demo_options)
              = Inl TypeError"
    by (simp add: classifyLead_try_def)
  have i1: "res_status (fst (ingest ((demo_env JNull)\<lparr> api_call := (\<lambda>raw. ApiThrows (ApiError ''timeout'')) \<rparr>)
          (demo_request (JObj [(''phone'', JStr ''+1234567890'')])) empty_sys)) = 202"
    by (simp add: demo_simps)
  have i2: "res_classification (fst (ingest ((demo_env JNull)\<lparr> api_call := (\<lambda>raw. ApiThrows (ApiError ''timeout'')) \<rparr>)
          (demo_request (JObj [(''phone'', JStr ''+1234567890'')])) empty_sys))
       = Some \<lparr> sum_intent = ''other'', sum_urgency = Fin 5, sum_persona = ''professional'',
                sum_language = JStr ''en'' \<rparr>"
    by (simp add: demo_simps)
  from classifier_failure_gives_defaults [of sample_builtins "ApiError ''timeout''" demo_options
      "JStr ''not json''" SyntaxError "JStr ''null''" "ApiResponse JNull" TypeError]
    h1 h2 h3 i1 i2
  show ?thesis by (simp add: p)
qed



text \<open>
  Claim C5. A request that leaves the ledger as it was (the insert failed, or was never
  reached) publishes nothing, is not accepted, returns no lead identifier and carries the
  request identifier. The bus changes only if the insert of the lead returned an
  identifier and the row was appended, and then by one emission of \<open>lead:new\<close> for that
  lead. When the request passes the validation and the insert fails, the reply is the
  status 500 with the request identifier, and neither the bus nor the ledger changes.
\<close>

theorem failed_insert_publishes_nothing:
  assumes i: "ingest env req s = (res, s')"
  shows "(ledger s' = ledger s \<longrightarrow>
            bus s' = bus s \<and> res_status res \<noteq> 202 \<and> res_leadId res = None
            \<and> res_requestId res = uuid env)
       \<and> (bus s' \<noteq> bus s \<longrightarrow>
            (\<exists>leadId row c ch. insert_lead env row = Inr leadId
               \<and> ledger s' = ledger s @ [(leadId, row)]
               \<and> bus s' = snd (emit ''lead:new'' (published leadId c ch) (bus s))))
       \<and> (truthy (body req) \<and> Object_keys_length (body req) \<noteq> Inr 0
            \<and> (\<forall>p. isl (insert_lead env p)) \<longrightarrow>
            res_status res = 500 \<and> res_requestId res = uuid env \<and> res_leadId res = None
            \<and> bus s' = bus s \<and> ledger s' = ledger s)"
proof -
  from ingest_shape [OF i] consider
    (invalid) "s' = s"
      "res = empty_payload_response (uuid env) \<or> res = ingestion_failed_response (uuid env)"
      "\<not> truthy (body req) \<or> Object_keys_length (body req) = Inr 0"
  | (valid) ch c row r4 where
      "store_and_publish env ch c row
         (s\<lparr> classifier_calls := classifier_calls s @ [body req] \<rparr>) = (r4, s')"
      "res = (case r4 of Inl e \<Rightarrow> ingestion_failed_response (uuid env)
                | Inr leadId \<Rightarrow> accepted_response (uuid env) leadId c)"
    by blast
  then show ?thesis
  proof cases
    case invalid
    then show ?thesis
      by (auto simp: empty_payload_response_def ingestion_failed_response_def)
  next
    case valid
    have third: "res_status res = 500 \<and> res_requestId res = uuid env \<and> res_leadId res = None
            \<and> bus s' = bus s \<and> ledger s' = ledger s" if "\<forall>p. isl (insert_lead env p)"
    proof -
      from that have "isl (insert_lead env row)" by blast
      with sp_cases [OF valid(1)] valid(2) show ?thesis
        by (auto simp: ingestion_failed_response_def)
    qed
    from sp_cases [OF valid(1)] valid(2)
    have first: "ledger s' = ledger s \<longrightarrow>
            bus s' = bus s \<and> res_status res \<noteq> 202 \<and> res_leadId res = None
            \<and> res_requestId res = uuid env"
      by (auto simp: ingestion_failed_response_def)
    from sp_cases [OF valid(1)]
    have second: "bus s' \<noteq> bus s \<longrightarrow>
            (\<exists>leadId row c ch. insert_lead env row = Inr leadId
               \<and> ledger s' = ledger s @ [(leadId, row)]
               \<and> bus s' = snd (emit ''lead:new'' (published leadId c ch) (bus s)))"
      by auto
    from first second third show ?thesis by blast
  qed
qed

text \<open>
  With a ledger that refuses every insert the request is answered by 500 and the bus is
  untouched; with a working ledger the same request appends a row and emits once.
\<close>

theorem failed_insert_publishes_nothing_witness:
  "truthy (body phone_request) \<and> Object_keys_length (body phone_request) \<noteq> Inr 0
   \<and> (\<forall>p. isl (insert_lead failing_env p))
   \<and> ledger (snd (ingest failing_env phone_request empty_sys)) = ledger empty_sys
   \<and> res_status (fst (ingest failing_env phone_request empty_sys)) = 500
   \<and> res_requestId (fst (ingest failing_env phone_request empty_sys)) = ''req-1''
   \<and> res_leadId (fst (ingest failing_env phone_request empty_sys)) = None
   \<and> bus (snd (ingest failing_env phone_request empty_sys)) = bus empty_sys
   \<and> bus (snd (ingest (demo_env (JObj [])) phone_request empty_sys)) \<noteq> bus empty_sys
   \<and> (\<exists>leadId row c ch. insert_lead (demo_env (JObj [])) row = Inr leadId
         \<and> ledger (snd (ingest (demo_env (JObj [])) phone_request empty_sys))
             = ledger empty_sys @ [(leadId, row)]
         \<and> bus (snd (ingest (demo_env (JObj [])) phone_request empty_sys))
             = snd (emit ''lead:new'' (published leadId c ch) (bus empty_sys)))"
proof -
  have v: "truthy (body phone_request) \<and> Object_keys_length (body phone_request) \<noteq> Inr 0"
    by (simp add: phone_request_def demo_request_def)
  have f: "\<forall>p. isl (insert_lead failing_env p)"
    by (simp add: failing_env_def)
  have l: "ledger (snd (ingest failing_env phone_request empty_sys)) = ledger empty_sys"
    by (simp add: failing_env_def phone_request_def demo_simps)
  have b: "bus (snd (ingest (demo_env (JObj [])) phone_request empty_sys)) \<noteq> bus empty_sys"
    by (simp add: phone_request_def demo_simps)
  from failed_insert_publishes_nothing [OF surjective_pairing, of failing_env phone_request empty_sys]
    failed_insert_publishes_nothing [OF surjective_pairing, of "demo_env (JObj [])" phone_request empty_sys]
    v f l b
  show ?thesis by (simp add: failing_env_def demo_env_def)
qed




text \<open>
  Claim C7. When every listener of an event was registered by \<open>subscribe\<close>, and there
  are two or more, \<open>emit\<close> returns to its caller without an exception, every listener
  is called with the payload, in subscription order, whether or not a listener before it
  threw or rejected, and each failure is logged. Emitting N payloads returns N times,
  and every listener receives the N payloads in emission order.
\<close>

theorem subscriber_failure_isolated:
  assumes "\<forall>l\<in>set (listeners b). levent l = ev \<longrightarrow> wrapped l"
    and "2 \<le> length (listeners_of ev b)"
  shows "fst (emit ev d b) = Inr True
       \<and> delivered (snd (emit ev d b)) = delivered b @ map (\<lambda>l. (lid l, d)) (listeners_of ev b)
       \<and> handler_errors (snd (emit ev d b))
           = handler_errors b @ logged_errors (listeners_of ev b) d
       \<and> fst (emit_all ev ds b) = replicate (length ds) (Inr True)
       \<and> (length (filter (\<lambda>l. lid l = i) (listeners_of ev b)) = 1 \<longrightarrow>
            deliveries_to i (snd (emit_all ev ds b)) = deliveries_to i b @ ds)"
proof -
  from assms(2) have n: "listeners_of ev b \<noteq> []" by auto
  from emit_wrapped [OF assms(1) n, of d] emit_all_wrapped [OF assms(1) n, of ds]
  show ?thesis
    by (simp add: deliveries_to_def deliveries_rounds)
qed

text \<open>
  The first subscriber throws on every payload; the second still receives 10, 20 and 30
  in this order, and the caller sees no exception.
\<close>

theorem subscriber_failure_isolated_witness:
  "map (\<lambda>l. (levent l, wrapped l)) (listeners two_subscribers)
     = [(''lead:new'', True), (''lead:new'', True)]
   \<and> 2 \<le> length (listeners_of ''lead:new'' two_subscribers)
   \<and> length (filter (\<lambda>l. lid l = 2) (listeners_of ''lead:new'' two_subscribers)) = 1
   \<and> fst (emit ''lead:new'' 7 two_subscribers) = Inr True
   \<and> delivered (snd (emit ''lead:new'' 7 two_subscribers)) = [(1, 7), (2, 7)]
   \<and> handler_errors (snd (emit ''lead:new'' 7 two_subscribers))
       = [(''lead:new'', HandlerError ''boom'')]
   \<and> fst (emit_all ''lead:new'' [10, 20, 30] two_subscribers) = [Inr True, Inr True, Inr True]
   \<and> deliveries_to 2 (snd (emit_all ''lead:new'' [10, 20, 30] two_subscribers)) = [10, 20, 30]"
proof -
  have a: "\<forall>l\<in>set (listeners two_subscribers). levent l = ''lead:new'' \<longrightarrow> wrapped l"
    by (simp add: two_subscribers_def subscribe_def new_bus_def)
  have b: "2 \<le> length (listeners_of ''lead:new'' two_subscribers)"
    by (simp add: two_subscribers_def subscribe_def new_bus_def listeners_of_def)
  have c: "length (filter (\<lambda>l. lid l = 2) (listeners_of ''lead:new'' two_subscribers)) = 1"
    by (simp add: two_subscribers_def subscribe_def new_bus_def listeners_of_def)
  have d: "listeners_of ''lead:new'' two_subscribers = listeners two_subscribers"
    by (simp add: two_subscribers_def subscribe_def new_bus_def listeners_of_def)
  have e: "map (\<lambda>l. (levent l, wrapped l)) (listeners two_subscribers)
     = [(''lead:new'', True), (''lead:new'', True)]"
    by (simp add: two_subscribers_def subscribe_def new_bus_def)
  from subscriber_failure_isolated [OF a b, of 7 "[10, 20, 30]" 2] b c e
  show ?thesis
    by (simp add: d)
      (simp add: two_subscribers_def subscribe_def new_bus_def logged_errors_def
        deliveries_to_def numeral_3_eq_3)
qed

text \<open>
  Claim C8, as amended. A round of health checks keeps the keys of the registry and
  always returns. The entry of a provider after the round is the result of its own check:
  it is healthy exactly when its own probe returned \<open>true\<close> and the update of its own
  row did not throw. A provider whose probe throws or returns \<open>false\<close> is recorded
  unhealthy, with the time of the check. Two rounds that agree on the probe, the update
  and the clock of a provider leave it in the same state, whatever happens to the others.
\<close>

theorem failed_probe_is_local:
  assumes "map_of ps k = Some d"
  shows "map fst (runHealthChecks w ps) = map fst ps
       \<and> map_of (runHealthChecks w ps) k = Some (check_provider w k d)
       \<and> isHealthy (check_provider w k d)
           = (probe w k = ProbeReturns True
              \<and> updateHealth w (config_id (config d)) ''healthy'' = None)
       \<and> (probe_failed (probe w k) \<longrightarrow>
            \<not> isHealthy (check_provider w k d)
            \<and> (lastHealthCheck (check_provider w k d) = Some (clock_try w k)
               \<or> lastHealthCheck (check_provider w k d) = Some (clock_catch w k)))
       \<and> (probe w k = probe w' k
            \<and> updateHealth w (config_id (config d)) = updateHealth w' (config_id (config d))
            \<and> clock_try w k = clock_try w' k \<and> clock_catch w k = clock_catch w' k \<longrightarrow>
            map_of (runHealthChecks w ps) k = map_of (runHealthChecks w' ps) k)"
proof -
  have a: "map_of (runHealthChecks w ps) k = Some (check_provider w k d)"
    and a': "map_of (runHealthChecks w' ps) k = Some (check_provider w' k d)"
    using assms by (simp_all add: runHealthChecks_lookup)
  have f: "\<not> isHealthy (check_provider w k d)" if "probe_failed (probe w k)"
    using that by (auto simp: check_provider_healthy probe_failed_def split: probe_outcome.splits)
  from a a' f check_provider_healthy [of w k d] check_provider_time [of w k d]
    check_provider_local [of w k w' d] runHealthChecks_keys [of w ps]
  show ?thesis by auto
qed

text \<open>
  The probe of the voice provider throws: it is recorded unhealthy at the time of the
  catch, and the email provider is recorded healthy.
\<close>

theorem failed_probe_is_local_witness:
  "map_of two_providers ''voice:vapi'' \<noteq> None
   \<and> probe_failed (probe vapi_down ''voice:vapi'')
   \<and> map (\<lambda>p. (fst p, isHealthy (snd p), lastHealthCheck (snd p)))
        (runHealthChecks vapi_down two_providers)
       = [(''voice:vapi'', False, Some 101), (''email:sendgrid'', True, Some 100)]"
proof -
  have a: "map_of two_providers ''voice:vapi'' = Some (snd (provider_entry ''id-1'' ''voice'' ''vapi'' True))"
    by (simp add: health_simps)
  have b: "probe_failed (probe vapi_down ''voice:vapi'')"
    by (simp add: health_simps)
  have c: "map (\<lambda>p. (fst p, isHealthy (snd p), lastHealthCheck (snd p)))
        (runHealthChecks vapi_down two_providers)
       = [(''voice:vapi'', False, Some 101), (''email:sendgrid'', True, Some 100)]"
    by (simp add: health_simps)
  from failed_probe_is_local [OF a, of vapi_down vapi_down] b c a
  show ?thesis by simp
qed

text \<open>
  Claim C8 as stated fails: in two rounds in which the probe of the email provider
  returns \<open>true\<close>, the provider is recorded healthy in one and unhealthy in the other,
  where the update of its row throws. Its state is not determined by its probe alone.
\<close>

theorem healthy_probe_recorded_unhealthy:
  "probe vapi_down_db_down ''email:sendgrid'' = ProbeReturns True
   \<and> probe vapi_down ''email:sendgrid'' = ProbeReturns True
   \<and> map (\<lambda>p. (fst p, isHealthy (snd p))) (runHealthChecks vapi_down_db_down two_providers)
       = [(''voice:vapi'', False), (''email:sendgrid'', False)]
   \<and> map (\<lambda>p. (fst p, isHealthy (snd p))) (runHealthChecks vapi_down two_providers)
       = [(''voice:vapi'', False), (''email:sendgrid'', True)]"
  by (simp add: health_simps)

text \<open>
  Claim C9, as amended. In a well-formed registry, \<open>get\<close> with a non-empty name that
  is not registered for the type returns \<open>undefined\<close>; \<open>get\<close> for a type that has no
  provider returns \<open>undefined\<close> when a non-empty name is given and \<open>null\<close> otherwise; and
  an instance that \<open>get\<close> returns is of the type asked for. \<open>setDefault\<close> raises
  nothing when its two updates succeed, whatever the type and the name: it returns
  normally, keeps the keys and leaves the entries of every other type as they were.
\<close>

theorem lookup_failure_is_silent:
  assumes "wf_providers ps"
  shows "(n \<noteq> [] \<and> \<not> registered t n ps \<longrightarrow> get t (Some n) ps = Undefined)
       \<and> (\<not> list_ex (\<lambda>p. provider_type (config (snd p)) = t) ps \<longrightarrow>
            get t nm ps = (if nm \<noteq> None \<and> nm \<noteq> Some [] then Undefined else Null))
       \<and> (get t nm ps = Found i \<longrightarrow> inst_type i = t)
       \<and> (\<exists>ps'. setDefault None None t n ps = Inr ps' \<and> map fst ps' = map fst ps
             \<and> (t' \<noteq> t \<longrightarrow>
                  filter (\<lambda>p. provider_type (config (snd p)) = t') ps'
                    = filter (\<lambda>p. provider_type (config (snd p)) = t') ps))"
proof -
  from assms have w: "list_all wf_entry ps" by (simp add: wf_providers_def)
  have a: "get t (Some n) ps = Undefined" if "n \<noteq> []" "\<not> registered t n ps"
    using that by (simp add: get_named map_of_registered [OF w] unregistered_entry)
  have d: "setDefault None None t n ps = Inr (set_flags t n ps)
           \<and> map fst (set_flags t n ps) = map fst ps
           \<and> (t' \<noteq> t \<longrightarrow>
                filter (\<lambda>p. provider_type (config (snd p)) = t') (set_flags t n ps)
                  = filter (\<lambda>p. provider_type (config (snd p)) = t') ps)"
    using set_flags_other_entries [OF assms, of t' t n]
    by (simp add: setDefault_ok set_flags_keys)
  from a d get_unknown_type [OF assms, of t nm] get_type [OF assms, of t nm i]
  show ?thesis by blast
qed

text \<open>An unknown name and an unknown type on the registry built from the seed rows.\<close>

theorem lookup_failure_is_silent_witness:
  "wf_providers sample_registry
   \<and> \<not> registered ''voice'' ''nexmo'' sample_registry
   \<and> \<not> list_ex (\<lambda>p. provider_type (config (snd p)) = ''sms'') sample_registry
   \<and> get ''voice'' (Some ''nexmo'') sample_registry = Undefined
   \<and> get ''sms'' None sample_registry = Null
   \<and> get ''sms'' (Some []) sample_registry = Null
   \<and> get ''sms'' (Some ''nexmo'') sample_registry = Undefined
   \<and> get ''voice'' None sample_registry
       = Found \<lparr> inst_type = ''voice'', inst_name = ''vapi'',
                 inst_config = \<lparr> config_id = ''id-3'', provider_type = ''voice'',
                                 provider_name = ''vapi'', is_default = True \<rparr> \<rparr>
   \<and> (\<exists>ps'. setDefault None None ''voice'' ''nexmo'' sample_registry = Inr ps'
         \<and> map fst ps' = map fst sample_registry
         \<and> filter (\<lambda>p. provider_type (config (snd p)) = ''email'') ps'
             = filter (\<lambda>p. provider_type (config (snd p)) = ''email'') sample_registry)"
proof -
  have a: "\<not> registered ''voice'' ''nexmo'' sample_registry"
    by (simp add: registry_simps)
  have b: "\<not> list_ex (\<lambda>p. provider_type (config (snd p)) = ''sms'') sample_registry"
    by (simp add: registry_simps)
  have c: "get ''voice'' None sample_registry
       = Found \<lparr> inst_type = ''voice'', inst_name = ''vapi'',
                 inst_config = \<lparr> config_id = ''id-3'', provider_type = ''voice'',
                                 provider_name = ''vapi'', is_default = True \<rparr> \<rparr>"
    by (simp add: registry_simps)
  have d: "''email'' \<noteq> ''voice''" "''nexmo'' \<noteq> []" by simp_all
  from lookup_failure_is_silent [OF sample_registry_wf, where n = "''nexmo''" and t = "''voice''"
      and nm = None and t' = "''email''"
      and i = "\<lparr> inst_type = ''voice'', inst_name = ''vapi'',
                 inst_config = \<lparr> config_id = ''id-3'', provider_type = ''voice'',
                                 provider_name = ''vapi'', is_default = True \<rparr> \<rparr>"]
    lookup_failure_is_silent [OF sample_registry_wf, where t = "''sms''" and nm = None]
    lookup_failure_is_silent [OF sample_registry_wf, where t = "''sms''" and nm = "Some []"]
    lookup_failure_is_silent [OF sample_registry_wf, where t = "''sms''" and nm = "Some ''nexmo''"]
    a b c d sample_registry_wf
  show ?thesis by auto
qed

text \<open>
  Claim C9 as stated fails: \<open>setDefault("voice", "nexmo")\<close> returns normally and
  clears the default of every voice provider, \<open>setDefault("sms", "nexmo")\<close> returns
  normally and changes nothing, and \<open>get\<close> returns \<open>null\<close> or \<open>undefined\<close>. No
  call signals an error.
\<close>

theorem unknown_provider_raises_nothing:
  "\<not> isl (setDefault None None ''voice'' ''nexmo'' sample_registry)
   \<and> map (\<lambda>p. (fst p, isDefault (snd p)))
        (projr (setDefault None None ''voice'' ''nexmo'' sample_registry))
       = [(''email:sendgrid'', True), (''email:resend'', False),
          (''voice:vapi'', False), (''voice:twilio'', False)]
   \<and> setDefault None None ''sms'' ''nexmo'' sample_registry = Inr sample_registry
   \<and> get ''sms'' None sample_registry = Null
   \<and> get ''sms'' (Some ''nexmo'') sample_registry = Undefined
   \<and> get ''voice'' (Some ''nexmo'') sample_registry = Undefined"
  by (simp add: registry_simps)

text \<open>
  Claim C10, as amended. In a well-formed registry, \<open>get\<close> with a non-empty name
  returns the instance of the entry registered under exactly that type and name, and
  \<open>undefined\<close> when there is none, whatever the defaults are.
\<close>

theorem named_lookup_is_exact:
  assumes "wf_providers ps" and "n \<noteq> []"
  shows "get t (Some n) ps =
           (case registered_entry t n ps of
              None \<Rightarrow> Undefined
            | Some p \<Rightarrow> Found (pinstance (snd p)))
       \<and> (get t (Some n) ps = Found i \<longrightarrow> inst_type i = t \<and> inst_name i = n)"
proof -
  from assms have w: "list_all wf_entry ps" by (simp add: wf_providers_def)
  have a: "get t (Some n) ps =
           (case registered_entry t n ps of
              None \<Rightarrow> Undefined
            | Some p \<Rightarrow> Found (pinstance (snd p)))"
    using assms(2)
    by (simp add: get_named map_of_registered [OF w] split: option.splits)
  have b: "inst_type i = t \<and> inst_name i = n" if g: "get t (Some n) ps = Found i"
  proof -
    from g a obtain p where f: "registered_entry t n ps = Some p" and i: "i = pinstance (snd p)"
      by (auto split: option.splits)
    from find_Some_member [OF f [unfolded registered_entry_def]]
    have "p \<in> set ps" and "provider_type (config (snd p)) = t \<and> provider_name (config (snd p)) = n"
      by simp_all
    with wf_member [OF assms(1) this(1)] i show ?thesis by (simp add: wf_entry_def)
  qed
  from a b show ?thesis by blast
qed

text \<open>
  The voice provider twilio is found although vapi is the default, and an unknown name
  gives \<open>undefined\<close> although a default exists.
\<close>

theorem named_lookup_is_exact_witness:
  "wf_providers sample_registry
   \<and> get ''voice'' (Some ''twilio'') sample_registry
       = Found \<lparr> inst_type = ''voice'', inst_name = ''twilio'',
                 inst_config = \<lparr> config_id = ''id-4'', provider_type = ''voice'',
                                 provider_name = ''twilio'', is_default = False \<rparr> \<rparr>
   \<and> registered_entry ''voice'' ''nexmo'' sample_registry = None
   \<and> get ''voice'' (Some ''nexmo'') sample_registry = Undefined"
proof -
  have a: "registered_entry ''voice'' ''twilio'' sample_registry
             = Some (provider_entry ''id-4'' ''voice'' ''twilio'' False)"
    by (simp add: registry_simps)
  have b: "registered_entry ''voice'' ''nexmo'' sample_registry = None"
    by (simp add: registry_simps)
  have c: "''twilio'' \<noteq> []" "''nexmo'' \<noteq> []" by simp_all
  from named_lookup_is_exact [OF sample_registry_wf c(1), of "''voice''"]
    named_lookup_is_exact [OF sample_registry_wf c(2), of "''voice''"]
    a b sample_registry_wf
  show ?thesis by (simp add: provider_entry_def Let_def)
qed

text \<open>
  Claim C10 as stated fails: the empty string is a name, no provider is registered
  under it, and \<open>get("voice", "")\<close> returns the default voice provider.
\<close>

theorem empty_name_falls_back_to_default:
  "registered_entry ''voice'' [] sample_registry = None
   \<and> map_of sample_registry (provider_key ''voice'' []) = None
   \<and> get ''voice'' (Some []) sample_registry
       = Found \<lparr> inst_type = ''voice'', inst_name = ''vapi'',
                 inst_config = \<lparr> config_id = ''id-3'', provider_type = ''voice'',
                                 provider_name = ''vapi'', is_default = True \<rparr> \<rparr>"
  by (simp add: registry_simps)

end
